theory Spec2Isabelle
  imports Complex_Main
begin

section \<open>Request interception (createPagePool.create)\<close>

text \<open>
  Both servers switch request interception on for every page they create and decide each
  request from the string that \<^verbatim>\<open>request.resourceType()\<close> returns.

  \<^verbatim>\<open>server.mjs\<close>, lines 270-280, works with a deny-list:
  \<^verbatim>\<open>
    const blockedTypes = ['image', 'media', 'font', 'texttrack', 'object', 'beacon',
                          'csp_report', 'imageset'];
    if (blockedTypes.includes(resourceType)) { request.abort(); } else { request.continue(); }
  \<close>
  \<^verbatim>\<open>server-n8n-optimized.mjs\<close>, lines 194-203, works with an allow-list:
  \<^verbatim>\<open>
    const allowedTypes = ['document', 'script'];
    if (allowedTypes.includes(resourceType)) { request.continue(); } else { request.abort(); }
  \<close>
\<close>

datatype interception = Continue | Abort

definition blockedTypes :: "string list" where
  "blockedTypes =
     [''image'', ''media'', ''font'', ''texttrack'', ''object'', ''beacon'',
      ''csp_report'', ''imageset'']"

definition onRequest :: "string \<Rightarrow> interception" where
  "onRequest resourceType =
     (if resourceType \<in> set blockedTypes then Abort else Continue)"

definition n8n_allowedTypes :: "string list" where
  "n8n_allowedTypes = [''document'', ''script'']"

definition n8n_onRequest :: "string \<Rightarrow> interception" where
  "n8n_onRequest resourceType =
     (if resourceType \<in> set n8n_allowedTypes then Continue else Abort)"

text \<open>The five resource types that the specification lists as the allow-list.\<close>

definition specAllowList :: "string list" where
  "specAllowList = [''document'', ''script'', ''xhr'', ''fetch'', ''stylesheet'']"

section \<open>Pool validation (createPagePool.validate)\<close>

text \<open>
  A pooled page carries the bookkeeping fields that the servers attach to it. The
  \<^verbatim>\<open>browser\<close> variable of the enclosing closure is \<^verbatim>\<open>null\<close> until the first launch,
  and the pool may hand \<^verbatim>\<open>validate\<close> a missing page, so both are options. The result
  of the JavaScript \<^verbatim>\<open>&&\<close> chain is modelled by its truthiness.

  \<^verbatim>\<open>server.mjs\<close>, lines 294-301:
  \<^verbatim>\<open>
    const isValid = page && !page._isClosed && browser && browser.isConnected();
    return isValid;
  \<close>
  \<^verbatim>\<open>server-n8n-optimized.mjs\<close>, lines 225-237:
  \<^verbatim>\<open>
    const isValid = page && !page._isClosed && !page._hasError && browser &&
                    browser.isConnected() && (Date.now() - page._created) < 300000;
    return isValid;
  \<close>
  Times are milliseconds since the epoch, as \<^verbatim>\<open>Date.now()\<close> gives them.
\<close>

record browser =
  isConnected :: bool

record page =
  p_isClosed :: bool
  p_hasError :: bool
  p_created :: int
  p_lastActivity :: int
  p_inUse :: bool

definition validate :: "browser option \<Rightarrow> page option \<Rightarrow> bool" where
  "validate browser page =
     (case page of
        None \<Rightarrow> False
      | Some p \<Rightarrow>
          \<not> p_isClosed p \<and>
          (case browser of None \<Rightarrow> False | Some b \<Rightarrow> isConnected b))"

definition n8n_maxAge :: int where
  "n8n_maxAge = 300000"

definition n8n_validate :: "int \<Rightarrow> browser option \<Rightarrow> page option \<Rightarrow> bool" where
  "n8n_validate dateNow browser page =
     (case page of
        None \<Rightarrow> False
      | Some p \<Rightarrow>
          \<not> p_isClosed p \<and> \<not> p_hasError p \<and>
          (case browser of None \<Rightarrow> False | Some b \<Rightarrow> isConnected b) \<and>
          dateNow - p_created p < n8n_maxAge)"

text \<open>A page created at time 0 that is open, idle and has had no error.\<close>

definition oldPage :: page where
  "oldPage = \<lparr>p_isClosed = False, p_hasError = False, p_created = 0,
              p_lastActivity = 0, p_inUse = False\<rparr>"

section \<open>The process state and its environment\<close>

text \<open>
  Everything the servers do beyond computing is a call into the browser, the pool or a
  timer, awaited one at a time on a single thread. A call settles in one of three ways,
  and while it is awaited events may arrive: the page's \<^verbatim>\<open>close\<close> event (which sets
  \<^verbatim>\<open>page._isClosed\<close>), a navigation (which changes \<^verbatim>\<open>page.url()\<close>), or a change of
  the browser connection. The environment is an arbitrary function from the number of the
  call and the call itself to what happens during it; the theorems quantify over all
  environments.
\<close>

datatype settle = Resolves | Rejects string | Never

record reply =
  settle :: settle
  took :: nat
  closes :: bool
  truthy :: bool
  navigated :: "string option"
  bytes :: "nat list"
  connection :: "bool option"

text \<open>
  The calls. A screenshot carries its quality and, when it has one, the width and height
  of its clip; a navigation carries its \<^verbatim>\<open>waitUntil\<close> and \<^verbatim>\<open>timeout\<close> options. The
  last two are not calls into the browser: a timer (\<^verbatim>\<open>setTimeout\<close>) with its minimal
  delay, and a draw of \<^verbatim>\<open>Math.random()\<close>. The trace of a run records the calls into the
  browser and the pool, not the timers and the draws.
\<close>

datatype action =
    Launch | CreatePool | ClosePages | PoolDrain | PoolClear | BrowserClose
  | ProcessExit nat | ScheduleRetry nat
  | PoolAcquire | PoolDestroy | PoolRelease | ClearCache
  | SetUserAgent | SetViewport nat nat
  | Goto string string nat
  | Screenshot nat "(nat \<times> nat) option"
  | Evaluate string
  | WaitForSelector string | Focus string | TypeChar string char
  | Query string | XPath string | BoundingBox | MouseMove | Click
  | Timer nat | Random

type_synonym env = "nat \<Rightarrow> action \<Rightarrow> reply"

text \<open>
  The closure variables of the server (\<^verbatim>\<open>server.mjs\<close>, lines 185-190) together with the
  clock, the number of environment replies consumed, the trace of calls, the page the
  running job holds (its \<^verbatim>\<open>_isClosed\<close> flag and \<^verbatim>\<open>url()\<close>), and whether
  \<^verbatim>\<open>process.exit\<close> has been called.
\<close>

record world =
  now :: nat
  tick :: nat
  trace :: "action list"
  browser :: "browser option"
  pagePool :: bool
  isRestarting :: bool
  restartAttempts :: nat
  exited :: bool
  pageClosed :: bool
  pageUrl :: string

datatype 'a outcome = Ret 'a | Throw string | Hang | Exit nat

text \<open>\<^verbatim>\<open>browser && browser.isConnected()\<close>, by its truthiness.\<close>

definition browserUp :: "world \<Rightarrow> bool" where
  "browserUp w = (case browser w of None \<Rightarrow> False | Some b \<Rightarrow> isConnected b)"

text \<open>What the events arriving during one awaited call do to the state.\<close>

definition observe :: "reply \<Rightarrow> nat \<Rightarrow> world \<Rightarrow> world" where
  "observe r ms w =
     w\<lparr> now := now w + ms,
        tick := tick w + 1,
        pageClosed := (pageClosed w \<or> closes r),
        pageUrl := (case navigated r of None \<Rightarrow> pageUrl w | Some u \<Rightarrow> u),
        browser := (case connection r of
                      None \<Rightarrow> browser w
                    | Some c \<Rightarrow> Some \<lparr>isConnected = c\<rparr>) \<rparr>"

text \<open>\<^verbatim>\<open>await call\<close>: the call is recorded, then it resolves, rejects or never settles.\<close>

definition await :: "env \<Rightarrow> action \<Rightarrow> world \<Rightarrow> reply outcome \<times> world" where
  "await env a w =
     (let r = env (tick w) a; w' = observe r (took r) (w\<lparr>trace := trace w @ [a]\<rparr>)
      in case settle r of
           Resolves \<Rightarrow> (Ret r, w')
         | Rejects e \<Rightarrow> (Throw e, w')
         | Never \<Rightarrow> (Hang, w'))"

text \<open>
  \<^verbatim>\<open>await Promise.race([call, new Promise((_, reject) => setTimeout(() => reject(new
  Error(msg)), ms))])\<close>: the timer wins when the call has not settled after \<^verbatim>\<open>ms\<close>
  milliseconds, so the race always settles.
\<close>

definition race :: "env \<Rightarrow> action \<Rightarrow> nat \<Rightarrow> string \<Rightarrow> world \<Rightarrow> reply outcome \<times> world" where
  "race env a ms msg w =
     (let r = env (tick w) a; w0 = w\<lparr>trace := trace w @ [a]\<rparr>
      in case settle r of
           Never \<Rightarrow> (Throw msg, observe r ms w0)
         | Resolves \<Rightarrow>
             if took r < ms then (Ret r, observe r (took r) w0)
             else (Throw msg, observe r ms w0)
         | Rejects e \<Rightarrow>
             if took r < ms then (Throw e, observe r (took r) w0)
             else (Throw msg, observe r ms w0))"

text \<open>
  \<^verbatim>\<open>await call.catch(() => ...)\<close>: a rejection is swallowed; the call can still never
  settle.
\<close>

definition awaitCaught :: "env \<Rightarrow> action \<Rightarrow> world \<Rightarrow> unit outcome \<times> world" where
  "awaitCaught env a w =
     (case await env a w of
        (Ret r, w') \<Rightarrow> (Ret (), w')
      | (Throw e, w') \<Rightarrow> (Ret (), w')
      | (Hang, w') \<Rightarrow> (Hang, w')
      | (Exit c, w') \<Rightarrow> (Exit c, w'))"

text \<open>
  \<^verbatim>\<open>await new Promise(r => setTimeout(r, ms))\<close>, and \<^verbatim>\<open>waitSafely(ms)\<close>, which is the
  same timer in Puppeteer's \<^verbatim>\<open>waitForTimeout\<close> or in the fallback branch: it always
  resolves, after at least \<^verbatim>\<open>ms\<close> milliseconds.
\<close>

definition sleep :: "env \<Rightarrow> nat \<Rightarrow> world \<Rightarrow> world" where
  "sleep env ms w =
     observe (env (tick w) (Timer ms)) (ms + took (env (tick w) (Timer ms))) w"

text \<open>Sequencing: a throw, a hang or a process exit ends what follows.\<close>

definition andThen ::
  "(world \<Rightarrow> 'a outcome \<times> world) \<Rightarrow> ('a \<Rightarrow> world \<Rightarrow> 'b outcome \<times> world) \<Rightarrow>
   world \<Rightarrow> 'b outcome \<times> world" where
  "andThen m f w =
     (case m w of
        (Ret a, w') \<Rightarrow> f a w'
      | (Throw e, w') \<Rightarrow> (Throw e, w')
      | (Hang, w') \<Rightarrow> (Hang, w')
      | (Exit c, w') \<Rightarrow> (Exit c, w'))"

text \<open>\<^verbatim>\<open>try { m } catch (e) { h(e) }\<close>.\<close>

definition tryCatch ::
  "(world \<Rightarrow> 'a outcome \<times> world) \<Rightarrow> (string \<Rightarrow> world \<Rightarrow> 'a outcome \<times> world) \<Rightarrow>
   world \<Rightarrow> 'a outcome \<times> world" where
  "tryCatch m h w =
     (case m w of
        (Throw e, w') \<Rightarrow> h e w'
      | (Ret a, w') \<Rightarrow> (Ret a, w')
      | (Hang, w') \<Rightarrow> (Hang, w')
      | (Exit c, w') \<Rightarrow> (Exit c, w'))"

section \<open>The restart supervisor (initializeBrowser, handleBrowserCrash)\<close>

definition MAX_RESTART_ATTEMPTS :: nat where
  "MAX_RESTART_ATTEMPTS = 5"

definition RESTART_DELAY :: nat where
  "RESTART_DELAY = 5000"

text \<open>
  \<^verbatim>\<open>server.mjs\<close>, lines 193-234. A launch that resolves installs the new browser, creates
  the pool and sets \<^verbatim>\<open>restartAttempts = 0\<close>; a launch that rejects is rethrown.
\<close>

definition initializeBrowser :: "env \<Rightarrow> world \<Rightarrow> unit outcome \<times> world" where
  "initializeBrowser env w =
     (case await env Launch w of
        (Ret r, w1) \<Rightarrow>
          (Ret (), w1\<lparr> browser := Some \<lparr>isConnected = True\<rparr>,
                        pagePool := True,
                        trace := trace w1 @ [CreatePool],
                        restartAttempts := 0 \<rparr>)
      | (Throw e, w1) \<Rightarrow> (Throw e, w1)
      | (Hang, w1) \<Rightarrow> (Hang, w1)
      | (Exit c, w1) \<Rightarrow> (Exit c, w1))"

text \<open>
  \<^verbatim>\<open>handleBrowserCrash\<close>, \<^verbatim>\<open>server.mjs\<close> lines 364-429, in two parts. The first part runs
  without an \<^verbatim>\<open>await\<close>, so nothing can interleave with it:
  \<^verbatim>\<open>
    if (isRestarting) { console.warn(...); return; }
    isRestarting = true;
    restartAttempts++;
    if (restartAttempts > MAX_RESTART_ATTEMPTS) { console.error(...); process.exit(1); }
  \<close>
\<close>

datatype entry = Skipped | Fatal | Entered

definition enterRestart :: "world \<Rightarrow> entry \<times> world" where
  "enterRestart w =
     (if isRestarting w then (Skipped, w)
      else
        let w1 = w\<lparr>isRestarting := True, restartAttempts := restartAttempts w + 1\<rparr>
        in if restartAttempts w1 > MAX_RESTART_ATTEMPTS
           then (Fatal, w1\<lparr>exited := True, trace := trace w1 @ [ProcessExit 1]\<rparr>)
           else (Entered, w1))"

text \<open>
  The second part is the body of the \<^verbatim>\<open>try\<close>: close the browser's pages, drain and clear
  the pool, close the browser (every one of these with its rejection swallowed), wait
  \<^verbatim>\<open>RESTART_DELAY\<close>, relaunch. The call of \<^verbatim>\<open>global.gc\<close> changes nothing that is
  modelled and is left out.
\<close>

definition teardown :: "env \<Rightarrow> world \<Rightarrow> unit outcome \<times> world" where
  "teardown env w =
     andThen (\<lambda>w. if browserUp w then awaitCaught env ClosePages w else (Ret (), w))
       (\<lambda>_. andThen (\<lambda>w. if pagePool w
                          then andThen (awaitCaught env PoolDrain)
                                 (\<lambda>_. awaitCaught env PoolClear) w
                          else (Ret (), w))
       (\<lambda>_ w. case browser w of
                 None \<Rightarrow> (Ret (), w)
               | Some b \<Rightarrow>
                   andThen (awaitCaught env BrowserClose)
                     (\<lambda>_ w. (Ret (), w\<lparr>browser := Some \<lparr>isConnected = False\<rparr>\<rparr>)) w)) w"

text \<open>
  How a restart sequence ends: \<^verbatim>\<open>isRestarting = false\<close> in both branches, and in the
  \<^verbatim>\<open>catch\<close> branch a retry scheduled with \<^verbatim>\<open>setTimeout\<close>.
\<close>

definition restartFailed :: "world \<Rightarrow> world" where
  "restartFailed w =
     w\<lparr>isRestarting := False, trace := trace w @ [ScheduleRetry RESTART_DELAY]\<rparr>"

definition restartSequence :: "env \<Rightarrow> world \<Rightarrow> unit outcome \<times> world" where
  "restartSequence env w =
     tryCatch
       (andThen (teardown env)
         (\<lambda>_ w. andThen (initializeBrowser env)
                  (\<lambda>_ w. (Ret (), w\<lparr>isRestarting := False\<rparr>))
                  (sleep env RESTART_DELAY w)))
       (\<lambda>e w. (Ret (), restartFailed w))
       w"

definition handleBrowserCrash :: "env \<Rightarrow> world \<Rightarrow> unit outcome \<times> world" where
  "handleBrowserCrash env w =
     (case enterRestart w of
        (Skipped, w') \<Rightarrow> (Ret (), w')
      | (Fatal, w') \<Rightarrow> (Exit 1, w')
      | (Entered, w') \<Rightarrow> restartSequence env w')"

text \<open>
  The handler is called from several tasks (the browser's \<^verbatim>\<open>disconnected\<close> event, the
  30-second health check, a job, the HTTP handlers, its own retry timer), and a restart
  sequence is suspended at every \<^verbatim>\<open>await\<close>. The interleavings are the sequences of two
  events: a call of the handler, which runs the first part at once, and the end of a
  running sequence, with the relaunch having succeeded or failed. \<^verbatim>\<open>running\<close> counts
  the sequences that have been entered and have not ended.
\<close>

datatype event = Trigger | Finish bool

record supervisor =
  sv_world :: world
  running :: nat

definition finishRestart :: "bool \<Rightarrow> world \<Rightarrow> world" where
  "finishRestart ok w =
     (if ok
      then w\<lparr> browser := Some \<lparr>isConnected = True\<rparr>, pagePool := True,
               restartAttempts := 0, isRestarting := False \<rparr>
      else restartFailed w)"

definition step :: "event \<Rightarrow> supervisor \<Rightarrow> supervisor" where
  "step ev s =
     (if exited (sv_world s) then s
      else case ev of
        Trigger \<Rightarrow>
          (case enterRestart (sv_world s) of
             (Entered, w') \<Rightarrow> \<lparr>sv_world = w', running = running s + 1\<rparr>
           | (_, w') \<Rightarrow> s\<lparr>sv_world := w'\<rparr>)
      | Finish ok \<Rightarrow>
          if running s = 0 then s
          else \<lparr>sv_world = finishRestart ok (sv_world s), running = running s - 1\<rparr>)"

definition run :: "event list \<Rightarrow> supervisor \<Rightarrow> supervisor" where
  "run evs s = foldl (\<lambda>s ev. step ev s) s evs"

text \<open>The state after the first launch at start-up: nothing restarting, no attempts.\<close>

definition started :: "world \<Rightarrow> supervisor" where
  "started w = \<lparr>sv_world = w\<lparr>isRestarting := False, restartAttempts := 0, exited := False\<rparr>,
                running = 0\<rparr>"

section \<open>Jobs, URLs and results\<close>

text \<open>
  \<^verbatim>\<open>new URL(string)\<close>, \<^verbatim>\<open>typeof page.$x === 'function'\<close>, \<^verbatim>\<open>String.prototype.toLowerCase\<close>
  and the properties that every object inherits belong to the platform (Node and the
  installed Puppeteer), not to the repository, so they are parameters. The parser returns
  \<^verbatim>\<open>None\<close> where \<^verbatim>\<open>new URL\<close> throws, and otherwise the two components of the URL that
  the servers read. \<^verbatim>\<open>inherited key\<close> is what \<^verbatim>\<open>({})[key]\<close> reads for a key the object
  does not own: \<^verbatim>\<open>None\<close> for \<^verbatim>\<open>undefined\<close>, and otherwise the function or object
  found on the prototype (for \<^verbatim>\<open>constructor\<close>, say), given by what reading a property of
  it yields.

  The value read from a property, as far as \<^verbatim>\<open>humanType\<close> can tell values apart:
  \<^verbatim>\<open>undefined\<close> or another falsy value; a string; or a truthy value that cannot be
  iterated (a function, an object, a number).
\<close>

datatype jsvalue = Undefined | Text string | Opaque

record url =
  protocol :: string
  hostname :: string

record platform =
  parseUrl :: "string \<Rightarrow> url option"
  hasXPath :: bool
  toLowerCase :: "string \<Rightarrow> string"
  inherited :: "string \<Rightarrow> (string \<Rightarrow> jsvalue) option"

text \<open>
  \<^verbatim>\<open>server.mjs\<close>, lines 26-34:
  \<^verbatim>\<open>
    try { const url = new URL(string);
          return url.protocol === 'http:' || url.protocol === 'https:'; }
    catch (err) { return false; }
  \<close>
\<close>

definition isValidUrl :: "platform \<Rightarrow> string \<Rightarrow> bool" where
  "isValidUrl P s =
     (case parseUrl P s of
        None \<Rightarrow> False
      | Some u \<Rightarrow> protocol u = ''http:'' \<or> protocol u = ''https:'')"

text \<open>
  A login step is the object \<^verbatim>\<open>{type, selector, valueKey, text, time}\<close> of the request
  body, by its \<^verbatim>\<open>type\<close>: \<^verbatim>\<open>input\<close>, \<^verbatim>\<open>click\<close>, \<^verbatim>\<open>clickText\<close>, \<^verbatim>\<open>wait\<close>, or any
  other string, which no \<^verbatim>\<open>case\<close> of the \<^verbatim>\<open>switch\<close> matches.
\<close>

datatype step =
    Input string string
  | ClickSel string
  | ClickText string
  | Wait "nat option"
  | Other string

record loginSite =
  site :: string
  ls_url :: string
  steps :: "step list"

text \<open>
  The request body: the \<^verbatim>\<open>url\<close> field may be absent; \<^verbatim>\<open>loginInstructions\<close> defaults to
  the empty list and \<^verbatim>\<open>credentials\<close> to the empty object. \<^verbatim>\<open>credentials\<close> holds the
  own properties of that object: for each site an object of strings.
\<close>

record job =
  c_url :: "string option"
  loginInstructions :: "loginSite list"
  credentials :: "string \<rightharpoonup> (string \<rightharpoonup> string)"

text \<open>
  A result is \<^verbatim>\<open>{data, type}\<close>: the screenshot buffer with type \<^verbatim>\<open>image/jpeg\<close>, or the
  JSON text of \<^verbatim>\<open>{success, error}\<close> with type \<^verbatim>\<open>application/json\<close>; the JSON text is
  kept as the two values it is made of.
\<close>

datatype payload = Image "nat list" | Json bool string

record jobResult =
  r_data :: payload
  r_type :: string

definition failure :: "string \<Rightarrow> jobResult" where
  "failure msg = \<lparr>r_data = Json False msg, r_type = ''application/json''\<rparr>"

text \<open>
  The template \<^verbatim>\<open>`Invalid URL: ${context.url}. URL must start with http:// or https://`\<close>;
  an absent field prints as \<^verbatim>\<open>undefined\<close>.
\<close>

definition shown :: "string option \<Rightarrow> string" where
  "shown u = (case u of None \<Rightarrow> ''undefined'' | Some s \<Rightarrow> s)"

definition invalidUrl :: "string option \<Rightarrow> jobResult" where
  "invalidUrl u =
     failure (''Invalid URL: '' @ shown u @ ''. URL must start with http:// or https://'')"

text \<open>
  The guard \<^verbatim>\<open>!context.url || !isValidUrl(context.url)\<close>: an absent field and the empty
  string are falsy.
\<close>

definition urlRejected :: "platform \<Rightarrow> string option \<Rightarrow> bool" where
  "urlRejected P u =
     (case u of None \<Rightarrow> True | Some s \<Rightarrow> s = [] \<or> \<not> isValidUrl P s)"

text \<open>
  \<^verbatim>\<open>s.includes(sub)\<close> and \<^verbatim>\<open>s.replace(pat, '')\<close> (the first occurrence only).
\<close>

fun str_includes :: "string \<Rightarrow> string \<Rightarrow> bool" where
  "str_includes [] sub = (sub = [])"
| "str_includes (c # s) sub = (take (length sub) (c # s) = sub \<or> str_includes s sub)"

fun replaceFirst :: "string \<Rightarrow> string \<Rightarrow> string" where
  "replaceFirst pat [] = []"
| "replaceFirst pat (c # s) =
     (if take (length pat) (c # s) = pat then drop (length pat) (c # s)
      else c # replaceFirst pat s)"

text \<open>
  Reading a property of an object of the request body, \<^verbatim>\<open>obj[key]\<close>: the own property
  if there is one, and otherwise what the object inherits. \<^verbatim>\<open>credentials[key]\<close> is
  \<^verbatim>\<open>None\<close> when it is \<^verbatim>\<open>undefined\<close>, and otherwise the object found, given by what
  reading a property of it yields.
\<close>

definition member :: "platform \<Rightarrow> (string \<rightharpoonup> string) \<Rightarrow> string \<Rightarrow> jsvalue" where
  "member P obj key =
     (case obj key of
        Some s \<Rightarrow> Text s
      | None \<Rightarrow> (case inherited P key of None \<Rightarrow> Undefined | Some f \<Rightarrow> Opaque))"

definition siteCredentials ::
  "platform \<Rightarrow> (string \<rightharpoonup> (string \<rightharpoonup> string)) \<Rightarrow> string \<Rightarrow> (string \<Rightarrow> jsvalue) option" where
  "siteCredentials P creds key =
     (case creds key of
        Some obj \<Rightarrow> Some (member P obj)
      | None \<Rightarrow> inherited P key)"

text \<open>\<^verbatim>\<open>value || ''\<close>: a falsy value, the empty string among them, gives the empty string.\<close>

definition orEmpty :: "jsvalue \<Rightarrow> jsvalue" where
  "orEmpty v = (case v of Undefined \<Rightarrow> Text [] | Text s \<Rightarrow> Text s | Opaque \<Rightarrow> Opaque)"

section \<open>The scrape pipeline (priceScraper)\<close>

text \<open>
  \<^verbatim>\<open>priceScraper\<close>, \<^verbatim>\<open>server.mjs\<close> lines 569-1039, stage by stage. Calls that take a
  \<^verbatim>\<open>timeout\<close> option (\<^verbatim>\<open>page.goto\<close>, \<^verbatim>\<open>page.waitForSelector\<close>) reject when it runs
  out, so they are races; \<^verbatim>\<open>page.screenshot\<close>, \<^verbatim>\<open>page.evaluate\<close> and the other calls
  take none and are plain awaits, unless the source wraps them in a \<^verbatim>\<open>Promise.race\<close>.
  \<^verbatim>\<open>randomDelay(min, max)\<close> is a timer of at least \<^verbatim>\<open>min\<close> milliseconds.

  Configuration, lines 634-679: the user agent and then the viewport, each tried up to
  three times with a 10-second race and a 1-second pause; a failure of the third try is
  swallowed unless the page is closed.
\<close>

function configAttempts ::
  "env \<Rightarrow> action \<Rightarrow> string \<Rightarrow> nat \<Rightarrow> world \<Rightarrow> unit outcome \<times> world" where
  "configAttempts env a msg attempt w =
     (if 3 < attempt then (Ret (), w)
      else
        (case (if pageClosed w then (Throw ''Page closed during configuration'', w)
               else race env a 10000 msg w) of
           (Ret r, w') \<Rightarrow> (Ret (), w')
         | (Throw e, w') \<Rightarrow>
             if attempt = 3 then (Throw e, w')
             else configAttempts env a msg (attempt + 1) (sleep env 1000 w')
         | (Hang, w') \<Rightarrow> (Hang, w')
         | (Exit c, w') \<Rightarrow> (Exit c, w')))"
  by pat_completeness auto
termination
  by (relation "measure (\<lambda>(env, a, msg, attempt, w). 4 - attempt)") auto

declare configAttempts.simps [simp del]

definition configure :: "env \<Rightarrow> world \<Rightarrow> unit outcome \<times> world" where
  "configure env w =
     tryCatch
       (andThen (configAttempts env SetUserAgent ''User agent timeout'' 1)
          (\<lambda>_. configAttempts env (SetViewport 1366 768) ''Viewport timeout'' 1))
       (\<lambda>e w. if pageClosed w then (Throw ''Page closed during configuration'', w)
               else (Ret (), w))
       w"

text \<open>
  \<^verbatim>\<open>humanType\<close>, lines 584-602: wait for the selector, focus it, clear it, type the text
  one character at a time; \<^verbatim>\<open>true\<close> when all of it resolved, \<^verbatim>\<open>false\<close> when any call
  rejected. \<^verbatim>\<open>for (const ch of text)\<close> throws a \<^verbatim>\<open>TypeError\<close> for a value that cannot
  be iterated; it is caught with the rest.
\<close>

fun typeChars :: "env \<Rightarrow> string \<Rightarrow> string \<Rightarrow> world \<Rightarrow> unit outcome \<times> world" where
  "typeChars env selector [] w = (Ret (), w)"
| "typeChars env selector (ch # rest) w =
     (case await env (TypeChar selector ch) w of
        (Ret r, w') \<Rightarrow> typeChars env selector rest (sleep env 30 w')
      | (Throw e, w') \<Rightarrow> (Throw e, w')
      | (Hang, w') \<Rightarrow> (Hang, w')
      | (Exit c, w') \<Rightarrow> (Exit c, w'))"

definition typeText :: "env \<Rightarrow> string \<Rightarrow> jsvalue \<Rightarrow> world \<Rightarrow> unit outcome \<times> world" where
  "typeText env selector text w =
     (case text of
        Text s \<Rightarrow> typeChars env selector s w
      | Undefined \<Rightarrow> (Throw ''TypeError: text is not iterable'', w)
      | Opaque \<Rightarrow> (Throw ''TypeError: text is not iterable'', w))"

definition humanType :: "env \<Rightarrow> string \<Rightarrow> jsvalue \<Rightarrow> world \<Rightarrow> bool outcome \<times> world" where
  "humanType env selector text w =
     tryCatch
       (andThen (race env (WaitForSelector selector) 10000 ''Waiting for selector failed'')
          (\<lambda>_. andThen (await env (Focus selector))
          (\<lambda>_. andThen (await env (Evaluate ''element.value = empty''))
          (\<lambda>_. andThen (typeText env selector text)
          (\<lambda>_ w. (Ret True, w))))))
       (\<lambda>e w. (Ret False, w))
       w"

text \<open>
  The login steps, lines 742-839. \<^verbatim>\<open>stepSuccess\<close> is threaded through. A \<^verbatim>\<open>click\<close>
  (lines 756-781) counts when the element is found, has a bounding box and the click
  resolves; a \<^verbatim>\<open>clickText\<close> (lines 782-827) likewise, by XPath where the page has
  \<^verbatim>\<open>$x\<close> and by a script otherwise; an \<^verbatim>\<open>input\<close> (lines 750-755) counts when
  \<^verbatim>\<open>humanType\<close> returns \<^verbatim>\<open>true\<close>; a \<^verbatim>\<open>wait\<close> (lines 828-831) is
  \<^verbatim>\<open>await waitSafely(step.time || 1500); stepSuccess++;\<close>.
\<close>

definition moveAndClick :: "env \<Rightarrow> nat \<Rightarrow> world \<Rightarrow> nat outcome \<times> world" where
  "moveAndClick env stepSuccess w =
     andThen (await env BoundingBox)
       (\<lambda>box w.
          if truthy box
          then andThen (await env MouseMove)
                 (\<lambda>_ w. andThen (await env Click)
                           (\<lambda>_ w. (Ret (stepSuccess + 1), w))
                           (sleep env 100 w)) w
          else (Ret stepSuccess, w))
       w"

definition clickSelector :: "env \<Rightarrow> string \<Rightarrow> nat \<Rightarrow> world \<Rightarrow> nat outcome \<times> world" where
  "clickSelector env selector stepSuccess w =
     tryCatch
       (andThen (race env (WaitForSelector selector) 10000 ''Waiting for selector failed'')
          (\<lambda>_. andThen (await env (Query selector))
          (\<lambda>el w. if truthy el then moveAndClick env stepSuccess w
                   else (Ret stepSuccess, w))))
       (\<lambda>e w. (Ret stepSuccess, w))
       w"

definition clickText :: "env \<Rightarrow> platform \<Rightarrow> string \<Rightarrow> nat \<Rightarrow> world \<Rightarrow> nat outcome \<times> world" where
  "clickText env P text stepSuccess w =
     tryCatch
       (if hasXPath P
        then andThen (await env (XPath text))
               (\<lambda>els w. if truthy els then moveAndClick env stepSuccess w
                         else (Ret stepSuccess, w))
        else andThen (await env (Evaluate ''click the first visible element containing the text''))
               (\<lambda>clicked w. (Ret (if truthy clicked then stepSuccess + 1 else stepSuccess), w)))
       (\<lambda>e w. (Ret stepSuccess, w))
       (sleep env 500 w)"

definition waitTime :: "nat option \<Rightarrow> nat" where
  "waitTime t = (case t of None \<Rightarrow> 1500 | Some ms \<Rightarrow> if ms = 0 then 1500 else ms)"

text \<open>
  \<^verbatim>\<open>credentials[loginSite.site.toLowerCase()][step.valueKey] || ''\<close>: \<^verbatim>\<open>None\<close> where
  \<^verbatim>\<open>credentials[...]\<close> is \<^verbatim>\<open>undefined\<close> and reading its property throws a
  \<^verbatim>\<open>TypeError\<close>.
\<close>

definition credential ::
  "platform \<Rightarrow> (string \<rightharpoonup> (string \<rightharpoonup> string)) \<Rightarrow> string \<Rightarrow> string \<Rightarrow> jsvalue option" where
  "credential P creds name valueKey =
     (case siteCredentials P creds (toLowerCase P name) of
        None \<Rightarrow> None
      | Some values \<Rightarrow> Some (orEmpty (values valueKey)))"

fun switchStep ::
  "env \<Rightarrow> platform \<Rightarrow> (string \<rightharpoonup> (string \<rightharpoonup> string)) \<Rightarrow> string \<Rightarrow> step \<Rightarrow> nat \<Rightarrow> world \<Rightarrow>
   nat outcome \<times> world" where
  "switchStep env P creds name (Input selector valueKey) stepSuccess w =
     (case credential P creds name valueKey of
        None \<Rightarrow> (Throw ''TypeError: cannot read properties of undefined'', w)
      | Some val \<Rightarrow>
          andThen (humanType env selector val)
            (\<lambda>inputSuccess w. (Ret (if inputSuccess then stepSuccess + 1 else stepSuccess), w))
            w)"
| "switchStep env P creds name (ClickSel selector) stepSuccess w =
     clickSelector env selector stepSuccess w"
| "switchStep env P creds name (ClickText text) stepSuccess w =
     clickText env P text stepSuccess w"
| "switchStep env P creds name (Wait t) stepSuccess w =
     (Ret (stepSuccess + 1), sleep env (waitTime t) w)"
| "switchStep env P creds name (Other ty) stepSuccess w = (Ret stepSuccess, w)"

text \<open>
  One iteration of the loop body inside its \<^verbatim>\<open>try\<close> (lines 746-838): the \<^verbatim>\<open>switch\<close>,
  then \<^verbatim>\<open>await waitSafely(1000 + Math.random() * 1000)\<close>; the \<^verbatim>\<open>catch\<close> rethrows only
  when the page is closed.
\<close>

definition runStep ::
  "env \<Rightarrow> platform \<Rightarrow> (string \<rightharpoonup> (string \<rightharpoonup> string)) \<Rightarrow> string \<Rightarrow> step \<Rightarrow> nat \<Rightarrow> world \<Rightarrow>
   nat outcome \<times> world" where
  "runStep env P creds name st stepSuccess w =
     (case switchStep env P creds name st stepSuccess w of
        (Ret n, w') \<Rightarrow> (Ret n, sleep env 1000 w')
      | (Throw e, w') \<Rightarrow>
          if pageClosed w' then (Throw ''Page closed during login step'', w')
          else (Ret stepSuccess, w')
      | (Hang, w') \<Rightarrow> (Hang, w')
      | (Exit c, w') \<Rightarrow> (Exit c, w'))"

fun loginSteps ::
  "env \<Rightarrow> platform \<Rightarrow> (string \<rightharpoonup> (string \<rightharpoonup> string)) \<Rightarrow> string \<Rightarrow> step list \<Rightarrow> nat \<Rightarrow> world \<Rightarrow>
   nat outcome \<times> world" where
  "loginSteps env P creds name [] stepSuccess w = (Ret stepSuccess, w)"
| "loginSteps env P creds name (st # rest) stepSuccess w =
     (if pageClosed w then (Throw ''Page closed during login steps'', w)
      else
        (case runStep env P creds name st stepSuccess w of
           (Ret n, w') \<Rightarrow> loginSteps env P creds name rest n w'
         | (Throw e, w') \<Rightarrow> (Throw e, w')
         | (Hang, w') \<Rightarrow> (Hang, w')
         | (Exit c, w') \<Rightarrow> (Exit c, w')))"

text \<open>
  The decision, lines 847-858:
  \<^verbatim>\<open>
    if (currentUrl !== loginSite.url) { loginSuccess = true; }
    else if (stepSuccess >= loginSite.steps.length * 0.75) { loginSuccess = true; }
    else { console.log('Login may have failed - URL unchanged and some steps failed'); }
  \<close>
  The product is a double; 0.75 is 3/4 exactly and the product of 3/4 with the length of
  an array is exact, so the comparison is the one of the rationals.
\<close>

definition classifyLogin :: "string \<Rightarrow> string \<Rightarrow> nat \<Rightarrow> nat \<Rightarrow> bool" where
  "classifyLogin currentUrl loginUrl stepSuccess nSteps =
     (if currentUrl \<noteq> loginUrl then True
      else if (of_nat nSteps :: rat) * (3 / 4) \<le> of_nat stepSuccess then True
      else False)"

definition gotoOptions :: "string \<Rightarrow> action" where
  "gotoOptions u = Goto u ''domcontentloaded'' 90000"

definition goto :: "env \<Rightarrow> string \<Rightarrow> world \<Rightarrow> reply outcome \<times> world" where
  "goto env u w = race env (gotoOptions u) 90000 ''Navigation timeout of 90000 ms exceeded'' w"

text \<open>
  The inner \<^verbatim>\<open>try\<close> of the login, lines 732-864, up to the decision: a screenshot of the
  login page, the steps, a 3-second wait, the check that the page is still open, the
  decision. The result is the value given to \<^verbatim>\<open>loginSuccess\<close>.
\<close>

definition loginAttempt ::
  "env \<Rightarrow> platform \<Rightarrow> (string \<rightharpoonup> (string \<rightharpoonup> string)) \<Rightarrow> loginSite \<Rightarrow> world \<Rightarrow>
   bool outcome \<times> world" where
  "loginAttempt env P creds ls w =
     andThen
       (\<lambda>w. if \<not> pageClosed w then await env (Screenshot 60 None) w
            else (Throw ''Page closed during login screenshot'', w))
       (\<lambda>_. andThen (loginSteps env P creds (site ls) (steps ls) 0)
                (\<lambda>stepSuccess w0.
                   let w = sleep env 3000 w0
                   in if pageClosed w then (Throw ''Page closed after login steps'', w)
                      else (Ret (classifyLogin (pageUrl w) (ls_url ls) stepSuccess
                                  (length (steps ls))), w)))
       w"

text \<open>
  The rest of the inner \<^verbatim>\<open>try\<close> and its \<^verbatim>\<open>catch\<close>, lines 860-868: a screenshot after
  the login, and for any error a rethrow when the page is closed. \<^verbatim>\<open>loginSuccess\<close>
  starts as \<^verbatim>\<open>false\<close> and keeps the value the decision gave it.
\<close>

definition loginStepsBlock ::
  "env \<Rightarrow> platform \<Rightarrow> (string \<rightharpoonup> (string \<rightharpoonup> string)) \<Rightarrow> loginSite \<Rightarrow> world \<Rightarrow>
   bool outcome \<times> world" where
  "loginStepsBlock env P creds ls w =
     (case loginAttempt env P creds ls w of
        (Ret loginSuccess, w1) \<Rightarrow>
          (case (if \<not> pageClosed w1
                 then andThen (await env (Screenshot 60 None)) (\<lambda>_ w. (Ret (), w)) w1
                 else (Ret (), w1)) of
             (Ret u, w2) \<Rightarrow> (Ret loginSuccess, w2)
           | (Throw e, w2) \<Rightarrow>
               if pageClosed w2 then (Throw ''Page closed during login process'', w2)
               else (Ret loginSuccess, w2)
           | (Hang, w2) \<Rightarrow> (Hang, w2)
           | (Exit c, w2) \<Rightarrow> (Exit c, w2))
      | (Throw e, w1) \<Rightarrow>
          if pageClosed w1 then (Throw ''Page closed during login process'', w1)
          else (Ret False, w1)
      | (Hang, w1) \<Rightarrow> (Hang, w1)
      | (Exit c, w1) \<Rightarrow> (Exit c, w1))"

text \<open>
  The choice of the login site, lines 682-696: the first site whose host name, without
  \<^verbatim>\<open>www.\<close>, contains the target's or is contained in it.
\<close>

definition domainOf :: "platform \<Rightarrow> string \<Rightarrow> string option" where
  "domainOf P s =
     (case parseUrl P s of
        None \<Rightarrow> None
      | Some u \<Rightarrow> Some (replaceFirst ''www.'' (hostname u)))"

definition findLoginSite :: "platform \<Rightarrow> string \<Rightarrow> loginSite list \<Rightarrow> loginSite option" where
  "findLoginSite P target sites =
     (case domainOf P target of
        None \<Rightarrow> None
      | Some domain \<Rightarrow>
          find (\<lambda>s. case domainOf P (ls_url s) of
                      None \<Rightarrow> False
                    | Some sd \<Rightarrow> str_includes domain sd \<or> str_includes sd domain)
            sites)"

text \<open>
  The login, lines 698-875. The result is \<^verbatim>\<open>Some\<close> of the final \<^verbatim>\<open>loginSuccess\<close> when
  the login block ran to its end, and \<^verbatim>\<open>None\<close> when there was no login or an error ended
  it; the source only logs it. The only error that leaves the stage is a closed page.
\<close>

definition loginProcess ::
  "env \<Rightarrow> platform \<Rightarrow> (string \<rightharpoonup> (string \<rightharpoonup> string)) \<Rightarrow> loginSite \<Rightarrow> world \<Rightarrow>
   bool option outcome \<times> world" where
  "loginProcess env P creds ls w =
     (if \<not> isValidUrl P (ls_url ls) then (Ret None, w)
      else if pageClosed w then (Throw ''Page closed before login'', w)
      else
        andThen (goto env (ls_url ls))
          (\<lambda>_ w0.
             let w = sleep env 2000 w0
             in if toLowerCase P (site ls) = ''winsupply'' \<and>
                   str_includes (pageUrl w) ''/Location/''
                then (if \<not> pageClosed w
                      then andThen (await env (Screenshot 60 None))
                             (\<lambda>_ w. (Ret (Some True), w)) w
                      else (Ret (Some True), w))
                else andThen (loginStepsBlock env P creds ls)
                       (\<lambda>loginSuccess w. (Ret (Some loginSuccess), w)) w)
          w)"

definition login ::
  "env \<Rightarrow> platform \<Rightarrow> job \<Rightarrow> string \<Rightarrow> world \<Rightarrow> bool option outcome \<times> world" where
  "login env P ctx target w =
     (case findLoginSite P target (loginInstructions ctx) of
        None \<Rightarrow> (Ret None, w)
      | Some ls \<Rightarrow>
          if siteCredentials P (credentials ctx) (toLowerCase P (site ls)) = None
          then (Ret None, w)
          else
            tryCatch (loginProcess env P (credentials ctx) ls)
              (\<lambda>e w. if pageClosed w then (Throw ''Page closed during login process'', w)
                      else (Ret None, w))
              w)"

text \<open>
  Navigation, lines 877-924: up to three tries of \<^verbatim>\<open>page.goto(url)\<close>; after a failed try
  a 5-second wait and a script that stops the page, raced against one second, with every
  error of it swallowed.
\<close>

function navigate :: "env \<Rightarrow> string \<Rightarrow> nat \<Rightarrow> world \<Rightarrow> unit outcome \<times> world" where
  "navigate env target attempt w =
     (if 3 < attempt then (Ret (), w)
      else
        (case (if pageClosed w then (Throw ''Page closed during navigation attempt'', w)
               else goto env target w) of
           (Ret r, w') \<Rightarrow> (Ret (), w')
         | (Throw e, w') \<Rightarrow>
             if pageClosed w' then (Throw ''Page closed during navigation'', w')
             else if attempt = 3 then (Throw e, w')
             else
               let w1 = sleep env 5000 w';
                   w2 = (if \<not> pageClosed w1
                         then snd (race env (Evaluate ''window.stop()'') 1000 [] w1)
                         else w1)
               in navigate env target (attempt + 1) w2
         | (Hang, w') \<Rightarrow> (Hang, w')
         | (Exit c, w') \<Rightarrow> (Exit c, w')))"
  by pat_completeness auto
termination
  by (relation "measure (\<lambda>(env, target, attempt, w). 4 - attempt)") auto

declare navigate.simps [simp del]

text \<open>Scrolling, lines 926-949.\<close>

definition scroll :: "env \<Rightarrow> world \<Rightarrow> unit outcome \<times> world" where
  "scroll env w =
     (if \<not> pageClosed w
      then tryCatch
             (andThen (await env (Evaluate ''scroll down the page''))
                (\<lambda>_ w. (Ret (), sleep env 1000 w)))
             (\<lambda>e w. if pageClosed w then (Throw ''Page closed during scrolling'', w)
                     else (Ret (), w))
             w
      else (Ret (), w))"

text \<open>
  \<^verbatim>\<open>dismissCookies\<close>, lines 112-178: the selectors in order, stopping at the first one
  that is found and clicked or when the page is closed; then a script that looks for a
  button by its text. It never throws.
\<close>

definition cookieSelectors :: "string list" where
  \<open>cookieSelectors =
     [''[aria-label="Accept cookies"]'', ''.cookie-accept'', ''#cookie-accept'',
      ''.cookie-banner button'', ''[data-cookie-accept]'', ''button.accept-cookies'',
      ''.consent-btn'', ''#accept-cookies'']\<close>

fun trySelectors :: "env \<Rightarrow> string list \<Rightarrow> world \<Rightarrow> bool outcome \<times> world" where
  "trySelectors env [] w = (Ret False, w)"
| "trySelectors env (sel # rest) w =
     (if pageClosed w then (Ret True, w)
      else
        (case tryCatch
                (andThen (await env (Query sel))
                   (\<lambda>element w.
                      if truthy element
                      then andThen (await env Click) (\<lambda>_ w. (Ret True, sleep env 300 w)) w
                      else (Ret False, w)))
                (\<lambda>e w. (Ret False, w))
                w of
           (Ret returned, w') \<Rightarrow>
             if returned then (Ret True, w') else trySelectors env rest w'
         | (Throw e, w') \<Rightarrow> (Throw e, w')
         | (Hang, w') \<Rightarrow> (Hang, w')
         | (Exit c, w') \<Rightarrow> (Exit c, w')))"

definition dismissCookies :: "env \<Rightarrow> world \<Rightarrow> unit outcome \<times> world" where
  "dismissCookies env w =
     (if pageClosed w then (Ret (), w)
      else
        andThen (trySelectors env cookieSelectors)
          (\<lambda>returned w.
             if \<not> returned \<and> \<not> pageClosed w
             then awaitCaught env (Evaluate ''click a button or link about cookies'') w
             else (Ret (), w))
          w)"

text \<open>The memory clean-up before the screenshot, lines 963-974.\<close>

definition memoryCleanup :: "env \<Rightarrow> world \<Rightarrow> unit outcome \<times> world" where
  "memoryCleanup env w =
     tryCatch
       (\<lambda>w. if \<not> pageClosed w
            then andThen (await env (Evaluate ''window.gc()'')) (\<lambda>_ w. (Ret (), w)) w
            else (Ret (), w))
       (\<lambda>e w. if pageClosed w then (Throw ''Page closed during memory cleanup'', w)
               else (Ret (), w))
       w"

text \<open>
  The capture, lines 976-1033. A primary attempt is
  \<^verbatim>\<open>
    screenshot = await Promise.race([
      page.screenshot({type: 'jpeg', quality: 70, fullPage: false,
                       clip: {x: 0, y: 0, width: 1366, height: 768}}),
      new Promise((_, reject) => setTimeout(() => reject(new Error('Screenshot timeout')), 30000))]);
  \<close>
  and the fallback, made in the \<^verbatim>\<open>catch\<close> of the third attempt, is
  \<^verbatim>\<open>
    screenshot = await page.screenshot({type: 'jpeg', quality: 50, fullPage: false,
                                        clip: {x: 0, y: 0, width: 800, height: 600}});
  \<close>
  with no race around it; when it fails, the error of the third attempt is rethrown. Each
  of the two stands in a \<^verbatim>\<open>try\<close> that first checks \<^verbatim>\<open>page._isClosed\<close>.
\<close>

definition primaryShot :: action where
  "primaryShot = Screenshot 70 (Some (1366, 768))"

definition fallbackShot :: action where
  "fallbackShot = Screenshot 50 (Some (800, 600))"

definition primaryAttempt :: "env \<Rightarrow> world \<Rightarrow> reply outcome \<times> world" where
  "primaryAttempt env w =
     (if pageClosed w then (Throw ''Page closed before screenshot attempt'', w)
      else race env primaryShot 30000 ''Screenshot timeout'' w)"

definition fallbackAttempt :: "env \<Rightarrow> world \<Rightarrow> reply outcome \<times> world" where
  "fallbackAttempt env w =
     (if \<not> pageClosed w then await env fallbackShot w
      else (Throw ''Page closed during fallback screenshot'', w))"

function screenshotAttempts ::
  "env \<Rightarrow> nat \<Rightarrow> world \<Rightarrow> nat list option outcome \<times> world" where
  "screenshotAttempts env attempt w =
     (if 3 < attempt then (Ret None, w)
      else
        (case primaryAttempt env w of
           (Ret r, w') \<Rightarrow> (Ret (Some (bytes r)), w')
         | (Throw screenshotError, w') \<Rightarrow>
             if pageClosed w' then (Throw ''Page closed during screenshot'', w')
             else if attempt = 3 then
               (case fallbackAttempt env w' of
                  (Ret r, w2) \<Rightarrow> (Ret (Some (bytes r)), w2)
                | (Throw fallbackError, w2) \<Rightarrow> (Throw screenshotError, w2)
                | (Hang, w2) \<Rightarrow> (Hang, w2)
                | (Exit c, w2) \<Rightarrow> (Exit c, w2))
             else screenshotAttempts env (attempt + 1) (sleep env 3000 w')
         | (Hang, w') \<Rightarrow> (Hang, w')
         | (Exit c, w') \<Rightarrow> (Exit c, w')))"
  by pat_completeness auto
termination
  by (relation "measure (\<lambda>(env, attempt, w). 4 - attempt)") auto

declare screenshotAttempts.simps [simp del]

definition capture :: "env \<Rightarrow> world \<Rightarrow> nat list outcome \<times> world" where
  "capture env w =
     andThen (screenshotAttempts env 1)
       (\<lambda>screenshot w.
          case screenshot of
            Some b \<Rightarrow> (Ret b, w)
          | None \<Rightarrow> (Throw ''Failed to capture screenshot after multiple attempts'', w))
       w"

text \<open>The stages after the login, and the whole body of the outer \<^verbatim>\<open>try\<close>.\<close>

definition afterLogin :: "env \<Rightarrow> string \<Rightarrow> world \<Rightarrow> nat list outcome \<times> world" where
  "afterLogin env target w =
     andThen
       (\<lambda>w. if pageClosed w then (Throw ''Page closed before navigation'', w)
            else navigate env target 1 w)
       (\<lambda>_. andThen (scroll env)
       (\<lambda>_. andThen (\<lambda>w. if \<not> pageClosed w then dismissCookies env w else (Ret (), w))
       (\<lambda>_. andThen
               (\<lambda>w. if pageClosed w then (Throw ''Page closed before taking screenshot'', w)
                    else memoryCleanup env w)
       (\<lambda>_. capture env))))
       w"

definition scrape :: "env \<Rightarrow> platform \<Rightarrow> job \<Rightarrow> string \<Rightarrow> world \<Rightarrow> nat list outcome \<times> world" where
  "scrape env P ctx target w =
     andThen (configure env)
       (\<lambda>_. andThen (login env P ctx target)
       (\<lambda>loginSuccess. afterLogin env target))
       w"

text \<open>
  \<^verbatim>\<open>priceScraper\<close> itself: the two early returns (lines 607-628), then the body, whose
  screenshot comes back as \<^verbatim>\<open>{data: screenshot, type: 'image/jpeg'}\<close> and whose every
  error comes back as the JSON failure with the error's message (lines 1035-1038).
\<close>

definition priceScraper :: "env \<Rightarrow> platform \<Rightarrow> job \<Rightarrow> world \<Rightarrow> jobResult outcome \<times> world" where
  "priceScraper env P ctx w =
     (case c_url ctx of
        None \<Rightarrow> (Ret (invalidUrl None), w)
      | Some target \<Rightarrow>
          if target = [] \<or> \<not> isValidUrl P target then (Ret (invalidUrl (Some target)), w)
          else if pageClosed w
          then (Ret (failure ''Page was closed before scraping could begin''), w)
          else
            (case scrape env P ctx target w of
               (Ret screenshot, w') \<Rightarrow>
                 (Ret \<lparr>r_data = Image screenshot, r_type = ''image/jpeg''\<rparr>, w')
             | (Throw e, w') \<Rightarrow> (Ret (failure e), w')
             | (Hang, w') \<Rightarrow> (Hang, w')
             | (Exit c, w') \<Rightarrow> (Exit c, w')))"

section \<open>Running a job (runScrapeJob) and the queue\<close>

text \<open>
  The wait for the browser after a restart, \<^verbatim>\<open>server.mjs\<close> lines 456-465: poll once a
  second, give up after 30 seconds.
\<close>

function waitForBrowser :: "env \<Rightarrow> nat \<Rightarrow> world \<Rightarrow> unit outcome \<times> world" where
  "waitForBrowser env startTime w =
     (if browserUp w then (Ret (), w)
      else if 30000 < now w - startTime
      then (Throw ''Browser not available after restart'', w)
      else waitForBrowser env startTime (sleep env 1000 w))"
  by pat_completeness auto
termination
  by (relation "measure (\<lambda>(env, startTime, w). startTime + 30001 - now w)")
    (auto simp: sleep_def observe_def)

declare waitForBrowser.simps [simp del]

text \<open>
  \<^verbatim>\<open>pagePool.acquire()\<close> rejects when the pool's \<^verbatim>\<open>acquireTimeoutMillis\<close> (60000) runs
  out. The page that comes back replaces the one held before, so its \<^verbatim>\<open>_isClosed\<close> is
  what the environment says about it.
\<close>

definition acquire :: "env \<Rightarrow> world \<Rightarrow> reply outcome \<times> world" where
  "acquire env w =
     (case race env PoolAcquire 60000 ''ResourceRequest timed out'' w of
        (Ret r, w') \<Rightarrow> (Ret r, w'\<lparr>pageClosed := closes r\<rparr>)
      | (Throw e, w') \<Rightarrow> (Throw e, w')
      | (Hang, w') \<Rightarrow> (Hang, w')
      | (Exit c, w') \<Rightarrow> (Exit c, w'))"

text \<open>
  The acquisition loop, lines 473-499; the result is \<^verbatim>\<open>pageAcquired\<close>. A missing or
  closed page is destroyed and the next attempt follows at once; a rejection is followed
  by a 2-second pause, and by a rethrow on the third attempt.
\<close>

function acquirePage :: "env \<Rightarrow> nat \<Rightarrow> world \<Rightarrow> bool outcome \<times> world" where
  "acquirePage env attempt w =
     (if 3 < attempt then (Ret False, w)
      else
        (case acquire env w of
           (Ret r, w') \<Rightarrow>
             if \<not> truthy r \<or> pageClosed w'
             then (case (if truthy r then awaitCaught env PoolDestroy w' else (Ret (), w')) of
                     (Ret u, w2) \<Rightarrow> acquirePage env (attempt + 1) w2
                   | (Throw e, w2) \<Rightarrow> (Throw e, w2)
                   | (Hang, w2) \<Rightarrow> (Hang, w2)
                   | (Exit c, w2) \<Rightarrow> (Exit c, w2))
             else (Ret True, w')
         | (Throw e, w') \<Rightarrow>
             if attempt = 3 then (Throw e, w')
             else acquirePage env (attempt + 1) (sleep env 2000 w')
         | (Hang, w') \<Rightarrow> (Hang, w')
         | (Exit c, w') \<Rightarrow> (Exit c, w')))"
  by pat_completeness auto
termination
  by (relation "measure (\<lambda>(env, attempt, w). 4 - attempt)") auto

declare acquirePage.simps [simp del]

text \<open>
  The occasional clearing of the storage, lines 505-518, one time in ten by
  \<^verbatim>\<open>Math.random()\<close>, with its errors swallowed; and the \<^verbatim>\<open>finally\<close> block, lines
  538-565, which cleans the page and releases it to the pool when it is still open.
\<close>

definition clearStorage :: "env \<Rightarrow> world \<Rightarrow> unit outcome \<times> world" where
  "clearStorage env w =
     (let r = env (tick w) Random; w1 = w\<lparr>tick := tick w + 1\<rparr>
      in if truthy r then awaitCaught env (Evaluate ''clear localStorage and sessionStorage'') w1
         else (Ret (), w1))"

definition releasePage :: "env \<Rightarrow> world \<Rightarrow> unit outcome \<times> world" where
  "releasePage env w =
     (if \<not> pageClosed w
      then andThen (awaitCaught env (Evaluate ''remove listeners and collect garbage''))
             (\<lambda>_. awaitCaught env PoolRelease) w
      else (Ret (), w))"

text \<open>
  What runs once a page has been acquired: the scraper, the \<^verbatim>\<open>catch\<close> (which destroys a
  page that is closed and returns the JSON failure) and the \<^verbatim>\<open>finally\<close>.
\<close>

definition withPage :: "env \<Rightarrow> platform \<Rightarrow> job \<Rightarrow> world \<Rightarrow> jobResult outcome \<times> world" where
  "withPage env P ctx w =
     (case andThen (clearStorage env) (\<lambda>_. priceScraper env P ctx) w of
        (Ret result, w') \<Rightarrow> andThen (releasePage env) (\<lambda>_ w. (Ret result, w)) w'
      | (Throw e, w') \<Rightarrow>
          if pageClosed w'
          then andThen (awaitCaught env PoolDestroy) (\<lambda>_ w. (Ret (failure e), w)) w'
          else andThen (releasePage env) (\<lambda>_ w. (Ret (failure e), w)) w'
      | (Hang, w') \<Rightarrow> (Hang, w')
      | (Exit c, w') \<Rightarrow> (Exit c, w'))"

text \<open>
  \<^verbatim>\<open>runScrapeJob\<close>, \<^verbatim>\<open>server.mjs\<close> lines 438-566. Its first statement is
  \<^verbatim>\<open>
    if (!context.url || !isValidUrl(context.url)) {
      console.error(`Invalid URL provided: ${context.url}`);
      return { data: JSON.stringify({ success: false,
                 error: `Invalid URL: ${context.url}. URL must start with http:// or https://` }),
               type: 'application/json' };
    }
  \<close>
  The check of the browser and the wait for it stand before the \<^verbatim>\<open>try\<close>, so their
  error leaves the function.
\<close>

definition runScrapeJob :: "env \<Rightarrow> platform \<Rightarrow> job \<Rightarrow> world \<Rightarrow> jobResult outcome \<times> world" where
  "runScrapeJob env P ctx w =
     (if urlRejected P (c_url ctx) then (Ret (invalidUrl (c_url ctx)), w)
      else
        andThen
          (\<lambda>w. if \<not> browserUp w
               then andThen (handleBrowserCrash env) (\<lambda>_ w. waitForBrowser env (now w) w) w
               else (Ret (), w))
          (\<lambda>_ w.
             case acquirePage env 1 w of
               (Ret pageAcquired, w1) \<Rightarrow>
                 if pageAcquired then withPage env P ctx w1
                 else (Ret (failure ''Failed to acquire a valid page from the pool''), w1)
             | (Throw e, w1) \<Rightarrow> (Ret (failure e), w1)
             | (Hang, w1) \<Rightarrow> (Hang, w1)
             | (Exit c, w1) \<Rightarrow> (Exit c, w1))
          w)"

text \<open>
  The queue is p-queue, a dependency; the servers only construct it and call
  \<^verbatim>\<open>queue.add(() => runScrapeJob(req.body))\<close>. \<^verbatim>\<open>server.mjs\<close>, line 435, passes
  \<^verbatim>\<open>{ concurrency: 1 }\<close>; \<^verbatim>\<open>server-n8n-optimized.mjs\<close>, lines 295-299, passes
  \<^verbatim>\<open>{ concurrency: 1, timeout: 45000, throwOnTimeout: true }\<close>.
\<close>

record queueOptions =
  concurrency :: nat
  q_timeout :: "nat option"

definition serverQueue :: queueOptions where
  "serverQueue = \<lparr>concurrency = 1, q_timeout = None\<rparr>"

definition n8nQueue :: queueOptions where
  "n8nQueue = \<lparr>concurrency = 1, q_timeout = Some 45000\<rparr>"

text \<open>
  Modelled from the spec: what the caller of \<^verbatim>\<open>queue.add\<close> gets, the queue being
  p-queue's and not in the repository. It is the job's own value or error with the time
  at which it arrives, the \<^verbatim>\<open>JobTimeout\<close> of the queue with its time, the end of the
  process, or nothing, ever.
\<close>

datatype 'a answer = Answer 'a nat | Failed string nat | JobTimeout nat | Terminated nat | Waiting

text \<open>
  Modelled from the spec: what becomes of the one slot of the queue after a job. It is
  free again, in some state; it is never free again; or the process is gone.
\<close>

datatype slot = Free world | Stuck | Gone nat

text \<open>
  Modelled from the spec: a job of the Job Queue that is not cut short. The caller gets
  what the job returns or throws, when it does, and waits for ever for a job that never
  returns.
\<close>

definition settled :: "'a outcome \<Rightarrow> world \<Rightarrow> 'a answer \<times> slot" where
  "settled r w' =
     (case r of
        Ret a \<Rightarrow> (Answer a (now w'), Free w')
      | Throw e \<Rightarrow> (Failed e (now w'), Free w')
      | Hang \<Rightarrow> (Waiting, Stuck)
      | Exit c \<Rightarrow> (Terminated c, Gone c))"

text \<open>
  Modelled from the spec: a job exceeds the timeout (4.2) when it never returns or runs
  for more than \<^verbatim>\<open>ms\<close> milliseconds; a job of exactly \<^verbatim>\<open>ms\<close> does not.
\<close>

definition exceeds :: "nat \<Rightarrow> 'a outcome \<Rightarrow> world \<Rightarrow> world \<Rightarrow> bool" where
  "exceeds ms r w w' = (case r of Hang \<Rightarrow> True | _ \<Rightarrow> ms < now w' - now w)"

text \<open>
  Modelled from the spec: one job that the Job Queue starts in state \<^verbatim>\<open>w\<close> (4.2: each
  admitted job runs under a hard wall-clock timeout; exceeding it fails the job with
  \<^verbatim>\<open>JobTimeout\<close> and the job is abandoned). A job that exceeds the timeout fails with
  \<^verbatim>\<open>JobTimeout\<close> at \<^verbatim>\<open>ms\<close> after its start, and the slot is free from then on, in
  the state the abandoned job has left; what an abandoned job would still do is not
  modelled.
\<close>

definition admitted ::
  "nat option \<Rightarrow> (world \<Rightarrow> 'a outcome \<times> world) \<Rightarrow> world \<Rightarrow> 'a answer \<times> slot" where
  "admitted limit job w =
     (case job w of
        (r, w') \<Rightarrow>
          (case limit of
             None \<Rightarrow> settled r w'
           | Some ms \<Rightarrow>
               if exceeds ms r w w'
               then (JobTimeout (now w + ms),
                     case r of Exit c \<Rightarrow> Gone c | _ \<Rightarrow> Free (w'\<lparr>now := now w + ms\<rparr>))
               else settled r w'))"

text \<open>
  Modelled from the spec: the strictly serialized executor (4.2: concurrency exactly 1,
  jobs complete in submission order). The jobs wait in the order of their submission;
  each starts when the slot is free again, in the state its predecessor has left. Behind
  a job that never frees the slot every caller waits, and after the end of the process
  no caller is answered.
\<close>

fun serial ::
  "nat option \<Rightarrow> (world \<Rightarrow> 'a outcome \<times> world) list \<Rightarrow> world \<Rightarrow> 'a answer list" where
  "serial limit [] w = []"
| "serial limit (job # rest) w =
     (case admitted limit job w of
        (ans, Free w') \<Rightarrow> ans # serial limit rest w'
      | (ans, Stuck) \<Rightarrow> ans # map (\<lambda>_. Waiting) rest
      | (ans, Gone c) \<Rightarrow> ans # map (\<lambda>_. Terminated c) rest)"

text \<open>
  Modelled from the spec: \<^verbatim>\<open>queue.add\<close> called for each of the jobs, in this order, on
  the idle queue of a server in state \<^verbatim>\<open>w\<close>; the result is the answer to each caller.
  The spec has one slot only; for any other \<^verbatim>\<open>concurrency\<close> jobs would overlap, which
  this model does not describe, and the result is \<^verbatim>\<open>None\<close>.
\<close>

definition queueAdd ::
  "queueOptions \<Rightarrow> (world \<Rightarrow> 'a outcome \<times> world) list \<Rightarrow> world \<Rightarrow> 'a answer list option" where
  "queueAdd opts jobs w =
     (if concurrency opts = 1 then Some (serial (q_timeout opts) jobs w) else None)"

section \<open>Test environments and the supervisor invariant\<close>

text \<open>
  Environments and states to run the model on: a call that resolves at once while nothing
  else happens, the environment in which every call does so, the environment in which
  every launch of the browser fails, and the state of a server that has just started.
\<close>

definition calm :: reply where
  "calm = \<lparr>settle = Resolves, took = 0, closes = False, truthy = True, navigated = None, bytes = [], connection = None\<rparr>"

definition quiet :: env where
  "quiet = (\<lambda>_ _. calm)"

definition failingLaunch :: env where
  "failingLaunch =
     (\<lambda>_ a. if a = Launch then calm\<lparr>settle := Rejects ''Failed to launch the browser process''\<rparr>
            else calm)"

definition idle :: world where
  "idle = \<lparr> now = 0, tick = 0, trace = [], browser = Some \<lparr>isConnected = True\<rparr>,
            pagePool = True, isRestarting = False, restartAttempts = 0, exited = False,
            pageClosed = False, pageUrl = ''about:blank'' \<rparr>"

text \<open>
  A platform whose parser knows three URLs, whose \<^verbatim>\<open>toLowerCase\<close> maps the ASCII
  letters, and whose objects inherit \<^verbatim>\<open>constructor\<close> (the function \<^verbatim>\<open>Object\<close>, with
  its \<^verbatim>\<open>name\<close> and \<^verbatim>\<open>length\<close>) and \<^verbatim>\<open>toString\<close>; and a job for the first of the URLs
  with no login.
\<close>

definition lowerASCII :: "string \<Rightarrow> string" where
  "lowerASCII s =
     map (\<lambda>c. case map_of (zip ''ABCDEFGHIJKLMNOPQRSTUVWXYZ''
                                 ''abcdefghijklmnopqrstuvwxyz'') c of
                 None \<Rightarrow> c
               | Some l \<Rightarrow> l) s"

definition objectPrototype :: "string \<Rightarrow> (string \<Rightarrow> jsvalue) option" where
  "objectPrototype key =
     (if key = ''constructor''
      then Some (\<lambda>p. if p = ''name'' then Text ''Object''
                     else if p = ''length'' \<or> p = ''prototype'' then Opaque
                     else Undefined)
      else if key = ''toString''
      then Some (\<lambda>p. if p = ''name'' then Text ''toString'' else Undefined)
      else None)"

definition web :: platform where
  "web = \<lparr> parseUrl = (\<lambda>s. if s = ''https://shop.acme.com/item/1''
                            then Some \<lparr>protocol = ''https:'', hostname = ''shop.acme.com''\<rparr>
                          else if s = ''https://www.acme.com/login''
                            then Some \<lparr>protocol = ''https:'', hostname = ''www.acme.com''\<rparr>
                          else if s = ''ftp://files.acme.com/x''
                            then Some \<lparr>protocol = ''ftp:'', hostname = ''files.acme.com''\<rparr>
                          else None),
           hasXPath = True,
           toLowerCase = lowerASCII,
           inherited = objectPrototype \<rparr>"

definition plainJob :: job where
  "plainJob = \<lparr> c_url = Some ''https://shop.acme.com/item/1'', loginInstructions = [],
      credentials = Map.empty \<rparr>"

text \<open>
  The invariant of the interleavings: at most one sequence is running, and one is running
  exactly when the flag is set in a process that has not exited.
\<close>

definition oneSequence :: "supervisor \<Rightarrow> bool" where
  "oneSequence s \<longleftrightarrow>
     running s \<le> 1 \<and>
     (running s = 1 \<longleftrightarrow> isRestarting (sv_world s) \<and> \<not> exited (sv_world s))"

text \<open>Five restart sequences in a row, each entered and each ending in a failed relaunch.\<close>

definition fiveFailures :: "event list" where
  "fiveFailures =
     [Trigger, Finish False, Trigger, Finish False, Trigger, Finish False,
      Trigger, Finish False, Trigger, Finish False]"

text \<open>A step list that consists of \<^verbatim>\<open>wait\<close> steps only.\<close>

definition onlyWaits :: "step list \<Rightarrow> bool" where
  "onlyWaits sts = list_all (\<lambda>st. case st of Wait t \<Rightarrow> True | _ \<Rightarrow> False) sts"

text \<open>The trace of the second state continues the trace of the first.\<close>

definition extends :: "world \<Rightarrow> world \<Rightarrow> bool" where
  "extends w w' \<longleftrightarrow> (\<exists>rest. trace w' = trace w @ rest)"

text \<open>
  The environment in which every call resolves at once and every navigation lands on its
  URL; a login site for the platform above, with the steps left open; the state of a page
  that stands on the login URL; a job that logs in with one \<^verbatim>\<open>wait\<close> step and one
  step of an unknown type; and the states of that job after the configuration and after
  the login.
\<close>

definition browsing :: env where
  "browsing = (\<lambda>n a. case a of Goto u wu t \<Rightarrow> calm\<lparr>navigated := Some u\<rparr> | _ \<Rightarrow> calm)"

definition waitingSite :: "step list \<Rightarrow> loginSite" where
  "waitingSite sts = \<lparr>site = ''Acme'', ls_url = ''https://www.acme.com/login'', steps = sts\<rparr>"

definition atLogin :: world where
  "atLogin = idle\<lparr>pageUrl := ''https://www.acme.com/login''\<rparr>"


definition configured :: world where
  "configured = idle\<lparr>tick := 2, trace := [SetUserAgent, SetViewport 1366 768]\<rparr>"


text \<open>
  To state what the capture does: a primary attempt wins its race when the screenshot
  resolves before the 30-second timer; otherwise the \<^verbatim>\<open>catch\<close> receives the
  rejection of the screenshot, if it came in time, or \<^verbatim>\<open>Screenshot timeout\<close>.
\<close>

definition primaryWins :: "reply \<Rightarrow> bool" where
  "primaryWins r \<longleftrightarrow> settle r = Resolves \<and> took r < 30000"

definition primaryError :: "reply \<Rightarrow> string" where
  "primaryError r =
     (case settle r of
        Rejects e \<Rightarrow> if took r < 30000 then e else ''Screenshot timeout''
      | _ \<Rightarrow> ''Screenshot timeout'')"

text \<open>
  The two ways the attempts end. \<^verbatim>\<open>stopped k\<close>: after \<^verbatim>\<open>k\<close> primary attempts and
  nothing else, with a screenshot or with the page closed. \<^verbatim>\<open>fellBack\<close>: what the
  fallback call decides after the third attempt has failed.
\<close>

definition stopped :: "nat \<Rightarrow> world \<Rightarrow> nat list option outcome \<Rightarrow> world \<Rightarrow> bool" where
  "stopped k w r w' \<longleftrightarrow>
     trace w' = trace w @ replicate k primaryShot \<and>
     ((\<exists>b. r = Ret (Some b)) \<or> (r = Throw ''Page closed during screenshot'' \<and> pageClosed w'))"

definition fellBack :: "reply \<Rightarrow> reply \<Rightarrow> nat list option outcome \<Rightarrow> bool" where
  "fellBack third fallback r \<longleftrightarrow>
     (settle fallback = Resolves \<and> r = Ret (Some (bytes fallback))) \<or>
     ((\<exists>e. settle fallback = Rejects e) \<and> r = Throw (primaryError third)) \<or>
     (settle fallback = Never \<and> r = Hang)"

text \<open>
  Two environments for the capture: one in which every primary screenshot never settles
  and every other call resolves at once, the screenshots with three bytes; and one in
  which the primary screenshot rejects while the page closes.
\<close>

definition crashing :: env where
  "crashing = (\<lambda>n a. if a = primaryShot
                      then calm\<lparr>settle := Rejects ''Target closed'', closes := True\<rparr>
                      else calm)"

definition timeouts :: env where
  "timeouts = (\<lambda>n a. if a = primaryShot then calm\<lparr>settle := Never\<rparr>
                      else calm\<lparr>bytes := [255, 216, 255]\<rparr>)"

text \<open>
  The state in which the capture of \<^verbatim>\<open>plainJob\<close> starts when every call before it has
  resolved at once, and the state in which it ends after three timeouts and the fallback.
\<close>

definition beforeCapture :: world where
  \<open>beforeCapture = idle\<lparr>now := 1300, tick := 9,
       trace := [SetUserAgent, SetViewport 1366 768, gotoOptions ''https://shop.acme.com/item/1'',
                 Evaluate ''scroll down the page'', Query ''[aria-label="Accept cookies"]'',
                 Click, Evaluate ''window.gc()'']\<rparr>\<close>

definition captured :: world where
  "captured = beforeCapture\<lparr>now := 97300, tick := 15,
       trace := trace beforeCapture @ [primaryShot, primaryShot, primaryShot, fallbackShot]\<rparr>"

text \<open>
  A page whose scripts never return: every \<^verbatim>\<open>page.evaluate\<close> stays unsettled, the
  draw of \<^verbatim>\<open>Math.random()\<close> skips the clearing of the storage, and every other call
  resolves at once. The job of \<^verbatim>\<open>plainJob\<close> then stops in the scroll, in the state
  \<^verbatim>\<open>stuck\<close>.
\<close>

definition frozen :: env where
  "frozen = (\<lambda>n a. case a of
                     Evaluate script \<Rightarrow> calm\<lparr>settle := Never\<rparr>
                   | Random \<Rightarrow> calm\<lparr>truthy := False\<rparr>
                   | _ \<Rightarrow> calm)"

definition stuck :: world where
  "stuck = idle\<lparr>tick := 6,
       trace := [PoolAcquire, SetUserAgent, SetViewport 1366 768,
                 gotoOptions ''https://shop.acme.com/item/1'', Evaluate ''scroll down the page'']\<rparr>"



section \<open>Results about request interception\<close>

lemma onRequest_Abort_iff:
  "onRequest t = Abort \<longleftrightarrow> t \<in> set blockedTypes"
  by (simp add: onRequest_def)

lemma n8n_onRequest_Continue_iff:
  "n8n_onRequest t = Continue \<longleftrightarrow> t = ''document'' \<or> t = ''script''"
  by (auto simp: n8n_onRequest_def n8n_allowedTypes_def)

text \<open>
  C9, as stated, fails on both servers: \<^verbatim>\<open>server.mjs\<close> lets a request of type
  \<^verbatim>\<open>websocket\<close>, which is none of the five listed types, proceed, and
  \<^verbatim>\<open>server-n8n-optimized.mjs\<close> aborts \<^verbatim>\<open>xhr\<close>, which is one of the five.
\<close>

theorem C9_allow_list_counterexample:
  "''websocket'' \<notin> set specAllowList \<and> onRequest ''websocket'' = Continue \<and>
   ''xhr'' \<in> set specAllowList \<and> n8n_onRequest ''xhr'' = Abort"
  by (simp add: specAllowList_def onRequest_def blockedTypes_def n8n_onRequest_def
      n8n_allowedTypes_def)

text \<open>
  C9, amended: the handler of \<^verbatim>\<open>server.mjs\<close> aborts exactly the requests whose resource
  type is one of image, media, font, texttrack, object, beacon, csp_report and imageset, and
  lets every other request proceed, the five types document, script, xhr, fetch and
  stylesheet among them; the handler of \<^verbatim>\<open>server-n8n-optimized.mjs\<close> lets exactly document
  and script proceed and aborts everything else.
\<close>

theorem C9_interception_policy:
  "(onRequest t = Abort \<longleftrightarrow>
      t \<in> {''image'', ''media'', ''font'', ''texttrack'', ''object'', ''beacon'',
           ''csp_report'', ''imageset''}) \<and>
   (onRequest t = Continue \<longleftrightarrow>
      t \<notin> {''image'', ''media'', ''font'', ''texttrack'', ''object'', ''beacon'',
           ''csp_report'', ''imageset''}) \<and>
   (t \<in> set specAllowList \<longrightarrow> onRequest t = Continue) \<and>
   (n8n_onRequest t = Continue \<longleftrightarrow> t = ''document'' \<or> t = ''script'') \<and>
   (n8n_onRequest t = Abort \<longleftrightarrow> t \<noteq> ''document'' \<and> t \<noteq> ''script'')"
proof -
  have abort: "onRequest t = Abort \<longleftrightarrow>
      t \<in> {''image'', ''media'', ''font'', ''texttrack'', ''object'', ''beacon'',
           ''csp_report'', ''imageset''}"
    by (simp add: onRequest_Abort_iff blockedTypes_def)
  have cont: "onRequest t = Continue \<longleftrightarrow>
      t \<notin> {''image'', ''media'', ''font'', ''texttrack'', ''object'', ''beacon'',
           ''csp_report'', ''imageset''}"
    by (simp add: onRequest_def blockedTypes_def)
  have five: "t \<in> set specAllowList \<longrightarrow> onRequest t = Continue"
    by (auto simp: specAllowList_def onRequest_def blockedTypes_def)
  have n8n_cont: "n8n_onRequest t = Continue \<longleftrightarrow> t = ''document'' \<or> t = ''script''"
    by (rule n8n_onRequest_Continue_iff)
  have n8n_abort: "n8n_onRequest t = Abort \<longleftrightarrow> t \<noteq> ''document'' \<and> t \<noteq> ''script''"
    by (simp add: n8n_onRequest_def n8n_allowedTypes_def)
  from abort cont five n8n_cont n8n_abort show ?thesis
    by (intro conjI)
qed

theorem C9_interception_policy_witness:
  "''stylesheet'' \<in> set specAllowList \<and> onRequest ''stylesheet'' = Continue \<and>
   onRequest ''font'' = Abort \<and> n8n_onRequest ''stylesheet'' = Abort \<and>
   n8n_onRequest ''script'' = Continue"
  using C9_interception_policy [of "''stylesheet''"] C9_interception_policy [of "''font''"]
    C9_interception_policy [of "''script''"]
  by (simp add: specAllowList_def)

section \<open>Results about the restart supervisor\<close>

lemma await_frame:
  "await env a w = (r, w') \<Longrightarrow>
     restartAttempts w' = restartAttempts w \<and> isRestarting w' = isRestarting w \<and>
     exited w' = exited w \<and> pagePool w' = pagePool w"
  by (auto simp: await_def observe_def Let_def split: settle.splits)

lemma awaitCaught_frame:
  "awaitCaught env a w = (r, w') \<Longrightarrow>
     restartAttempts w' = restartAttempts w \<and> isRestarting w' = isRestarting w \<and>
     exited w' = exited w \<and> pagePool w' = pagePool w"
  by (auto simp: awaitCaught_def split: prod.splits outcome.splits dest: await_frame)

lemma awaitCaught_no_throw: "awaitCaught env a w \<noteq> (Throw e, w')"
  by (auto simp: awaitCaught_def split: prod.splits outcome.splits)

lemma awaitCaught_no_exit: "awaitCaught env a w \<noteq> (Exit c, w')"
  by (auto simp: awaitCaught_def await_def Let_def split: prod.splits outcome.splits settle.splits)

lemma sleep_frame:
  "restartAttempts (sleep env ms w) = restartAttempts w \<and>
   isRestarting (sleep env ms w) = isRestarting w \<and>
   exited (sleep env ms w) = exited w"
  by (simp add: sleep_def observe_def)

lemma teardown_frame:
  "teardown env w = (r, w') \<Longrightarrow>
     restartAttempts w' = restartAttempts w \<and> isRestarting w' = isRestarting w \<and>
     exited w' = exited w"
  unfolding teardown_def andThen_def
  by (auto split: prod.splits outcome.splits if_splits option.splits dest!: awaitCaught_frame)

lemma teardown_outcome: "teardown env w = (r, w') \<Longrightarrow> r = Ret () \<or> r = Hang"
  unfolding teardown_def andThen_def
  by (auto split: prod.splits outcome.splits if_splits option.splits simp: awaitCaught_no_throw awaitCaught_no_exit)

lemma initializeBrowser_Ret:
  "initializeBrowser env w = (Ret u, w') \<Longrightarrow>
     restartAttempts w' = 0 \<and> browserUp w' \<and> pagePool w' \<and> isRestarting w' = isRestarting w"
  by (auto simp: initializeBrowser_def browserUp_def split: prod.splits outcome.splits dest: await_frame)

lemma initializeBrowser_Throw:
  "initializeBrowser env w = (Throw e, w') \<Longrightarrow>
     restartAttempts w' = restartAttempts w \<and> exited w' = exited w"
  by (auto simp: initializeBrowser_def split: prod.splits outcome.splits dest: await_frame)

lemma initializeBrowser_no_exit: "initializeBrowser env w \<noteq> (Exit c, w')"
  by (auto simp: initializeBrowser_def await_def Let_def split: prod.splits outcome.splits settle.splits)

lemma restartSequence_Ret:
  assumes "restartSequence env w = (Ret u, w')"
  shows "\<not> isRestarting w' \<and>
         (restartAttempts w' = 0 \<and> browserUp w' \<or>
          restartAttempts w' = restartAttempts w \<and> last (trace w') = ScheduleRetry RESTART_DELAY)"
  using assms unfolding restartSequence_def tryCatch_def andThen_def restartFailed_def
  by (auto split: prod.splits outcome.splits
      dest!: teardown_frame initializeBrowser_Ret initializeBrowser_Throw
      simp: sleep_frame browserUp_def)

lemma oneSequence_step: "oneSequence s \<Longrightarrow> oneSequence (step ev s)"
  by (cases ev)
    (auto simp: oneSequence_def step_def enterRestart_def Let_def finishRestart_def
      restartFailed_def split: if_splits prod.splits entry.splits)

lemma oneSequence_run: "oneSequence s \<Longrightarrow> oneSequence (run evs s)"
  unfolding run_def
  by (induction evs arbitrary: s) (simp_all add: oneSequence_step)

lemma oneSequence_started: "oneSequence (started w)"
  by (simp add: oneSequence_def started_def)

text \<open>
  C5: a call of the restart handler while a restart sequence is in progress returns at once
  and leaves the whole state as it was, so the attempt counter is not incremented and no
  teardown call is made; and in every interleaving of handler calls and sequence ends,
  starting from a server that has just started, at most one restart sequence is running.
\<close>

theorem C5_restart_entry_idempotent:
  "(isRestarting w \<longrightarrow> handleBrowserCrash env w = (Ret (), w)) \<and>
   (isRestarting (sv_world s) \<longrightarrow> step Trigger s = s) \<and>
   running (run evs (started w0)) \<le> 1"
proof (intro conjI impI)
  assume "isRestarting w"
  then show "handleBrowserCrash env w = (Ret (), w)"
    by (simp add: handleBrowserCrash_def enterRestart_def)
next
  assume "isRestarting (sv_world s)"
  then show "step Trigger s = s"
    by (simp add: step_def enterRestart_def)
next
  have "oneSequence (run evs (started w0))"
    by (rule oneSequence_run [OF oneSequence_started])
  then show "running (run evs (started w0)) \<le> 1"
    by (simp add: oneSequence_def)
qed

theorem C5_restart_entry_idempotent_witness:
  "isRestarting (idle\<lparr>isRestarting := True, restartAttempts := 2\<rparr>) \<and>
   handleBrowserCrash quiet (idle\<lparr>isRestarting := True, restartAttempts := 2\<rparr>) =
     (Ret (), idle\<lparr>isRestarting := True, restartAttempts := 2\<rparr>) \<and>
   running (run [Trigger, Trigger, Finish False, Trigger, Trigger] (started idle)) = 1"
proof -
  have a: "isRestarting (idle\<lparr>isRestarting := True, restartAttempts := 2\<rparr>)"
    by simp
  have b: "running (run [Trigger, Trigger, Finish False, Trigger, Trigger] (started idle)) = 1"
    by (simp add: run_def step_def started_def enterRestart_def finishRestart_def
        restartFailed_def MAX_RESTART_ATTEMPTS_def idle_def Let_def)
  from a b C5_restart_entry_idempotent
    [of "idle\<lparr>isRestarting := True, restartAttempts := 2\<rparr>" quiet]
  show ?thesis by simp
qed

lemma enterRestart_fatal:
  "\<not> isRestarting w \<Longrightarrow> MAX_RESTART_ATTEMPTS < restartAttempts w + 1 \<Longrightarrow>
     enterRestart w =
       (Fatal, w\<lparr>isRestarting := True, restartAttempts := restartAttempts w + 1,
                 exited := True, trace := trace w @ [ProcessExit 1]\<rparr>)"
  by (simp add: enterRestart_def Let_def)

lemma enterRestart_entered:
  "\<not> isRestarting w \<Longrightarrow> restartAttempts w + 1 \<le> MAX_RESTART_ATTEMPTS \<Longrightarrow>
     enterRestart w = (Entered, w\<lparr>isRestarting := True, restartAttempts := restartAttempts w + 1\<rparr>)"
  by (simp add: enterRestart_def Let_def)

lemma await_no_exit: "await env a w \<noteq> (Exit c, w')"
  by (auto simp: await_def Let_def split: settle.splits)

lemma initializeBrowser_exited:
  "initializeBrowser env w = (r, w') \<Longrightarrow> r \<noteq> Exit c \<and> exited w' = exited w"
  by (auto simp: initializeBrowser_def await_no_exit split: prod.splits outcome.splits
      dest: await_frame)

lemma teardown_exited:
  "teardown env w = (r, w') \<Longrightarrow> r \<noteq> Exit c \<and> r \<noteq> Throw e \<and> exited w' = exited w"
  using teardown_outcome [of env w r w'] teardown_frame [of env w r w'] by auto

lemma restartSequence_exited:
  assumes "restartSequence env w = (r, w')"
  shows "r \<noteq> Exit c \<and> exited w' = exited w"
proof -
  obtain r1 w1 where t: "teardown env w = (r1, w1)"
    by (cases "teardown env w")
  obtain r2 w2 where i: "initializeBrowser env (sleep env RESTART_DELAY w1) = (r2, w2)"
    by (cases "initializeBrowser env (sleep env RESTART_DELAY w1)")
  have e1: "exited w1 = exited w" and o1: "r1 = Ret () \<or> r1 = Hang"
    using teardown_exited [OF t] teardown_outcome [OF t] by auto
  have e2: "exited w2 = exited w1" and o2: "r2 \<noteq> Exit c"
    using initializeBrowser_exited [OF i] by (auto simp: sleep_frame)
  from o1 show ?thesis
  proof
    assume "r1 = Hang"
    with assms t e1 show ?thesis
      by (auto simp: restartSequence_def tryCatch_def andThen_def)
  next
    assume "r1 = Ret ()"
    with assms t i e1 e2 o2 show ?thesis
      by (cases r2) (auto simp: restartSequence_def tryCatch_def andThen_def restartFailed_def)
  qed
qed

lemma run_fiveFailures:
  "\<not> exited (sv_world (run fiveFailures (started w))) \<and>
   \<not> isRestarting (sv_world (run fiveFailures (started w))) \<and>
   restartAttempts (sv_world (run fiveFailures (started w))) = 5 \<and>
   exited (sv_world (run (fiveFailures @ [Trigger]) (started w)))"
  by (simp add: run_def fiveFailures_def step_def started_def enterRestart_def
      finishRestart_def restartFailed_def MAX_RESTART_ATTEMPTS_def Let_def)

text \<open>
  C4: every entry into the restart sequence (a call of the handler while none is in
  progress) increments the attempt counter. When the incremented counter exceeds
  \<^verbatim>\<open>MAX_RESTART_ATTEMPTS\<close>, which is 5, the handler calls \<^verbatim>\<open>process.exit(1)\<close> and does
  nothing else: no teardown, no relaunch, no retry. Otherwise the process stays alive, and
  a handler that returns has either relaunched the browser, with the counter back at zero,
  or has failed, with the counter one higher and a retry scheduled. A launch that succeeds
  always sets the counter to zero. Five failed sequences in a row leave the process alive
  with the counter at 5, and the sixth entry terminates it.
\<close>

theorem C4_restart_attempts:
  assumes idle: "\<not> isRestarting w"
  shows
   "restartAttempts (snd (enterRestart w)) = restartAttempts w + 1 \<and>
    (MAX_RESTART_ATTEMPTS < restartAttempts w + 1 \<longrightarrow>
       fst (handleBrowserCrash env w) = Exit 1 \<and>
       exited (snd (handleBrowserCrash env w)) \<and>
       trace (snd (handleBrowserCrash env w)) = trace w @ [ProcessExit 1]) \<and>
    (restartAttempts w + 1 \<le> MAX_RESTART_ATTEMPTS \<longrightarrow>
       fst (handleBrowserCrash env w) \<noteq> Exit 1 \<and>
       exited (snd (handleBrowserCrash env w)) = exited w \<and>
       (fst (handleBrowserCrash env w) = Ret () \<longrightarrow>
          \<not> isRestarting (snd (handleBrowserCrash env w)) \<and>
          (restartAttempts (snd (handleBrowserCrash env w)) = 0 \<and>
             browserUp (snd (handleBrowserCrash env w)) \<or>
           restartAttempts (snd (handleBrowserCrash env w)) = restartAttempts w + 1 \<and>
             last (trace (snd (handleBrowserCrash env w))) = ScheduleRetry RESTART_DELAY))) \<and>
    (\<forall>w1 w2. initializeBrowser env w1 = (Ret (), w2) \<longrightarrow> restartAttempts w2 = 0) \<and>
    \<not> exited (sv_world (run fiveFailures (started w))) \<and>
    restartAttempts (sv_world (run fiveFailures (started w))) = 5 \<and>
    exited (sv_world (run (fiveFailures @ [Trigger]) (started w)))"
proof -
  have incr: "restartAttempts (snd (enterRestart w)) = restartAttempts w + 1"
    using idle by (simp add: enterRestart_def Let_def)
  have fatal: "fst (handleBrowserCrash env w) = Exit 1 \<and>
       exited (snd (handleBrowserCrash env w)) \<and>
       trace (snd (handleBrowserCrash env w)) = trace w @ [ProcessExit 1]"
    if "MAX_RESTART_ATTEMPTS < restartAttempts w + 1"
    using enterRestart_fatal [OF idle that] by (simp add: handleBrowserCrash_def)
  have entered: "fst (handleBrowserCrash env w) \<noteq> Exit 1 \<and>
       exited (snd (handleBrowserCrash env w)) = exited w \<and>
       (fst (handleBrowserCrash env w) = Ret () \<longrightarrow>
          \<not> isRestarting (snd (handleBrowserCrash env w)) \<and>
          (restartAttempts (snd (handleBrowserCrash env w)) = 0 \<and>
             browserUp (snd (handleBrowserCrash env w)) \<or>
           restartAttempts (snd (handleBrowserCrash env w)) = restartAttempts w + 1 \<and>
             last (trace (snd (handleBrowserCrash env w))) = ScheduleRetry RESTART_DELAY))"
    if le: "restartAttempts w + 1 \<le> MAX_RESTART_ATTEMPTS"
  proof -
    define w1 where "w1 = w\<lparr>isRestarting := True, restartAttempts := restartAttempts w + 1\<rparr>"
    obtain r w' where run: "restartSequence env w1 = (r, w')"
      by (cases "restartSequence env w1")
    have hbc: "handleBrowserCrash env w = (r, w')"
      using enterRestart_entered [OF idle le] run
      by (simp add: handleBrowserCrash_def w1_def)
    have ex: "r \<noteq> Exit 1 \<and> exited w' = exited w1"
      using restartSequence_exited [OF run] by simp
    have ret: "\<not> isRestarting w' \<and>
         (restartAttempts w' = 0 \<and> browserUp w' \<or>
          restartAttempts w' = restartAttempts w1 \<and>
          last (trace w') = ScheduleRetry RESTART_DELAY)" if "r = Ret ()"
      using restartSequence_Ret [of env w1 "()" w'] run that by simp
    show ?thesis
      using ex ret by (simp add: hbc w1_def)
  qed
  have reset: "\<forall>w1 w2. initializeBrowser env w1 = (Ret (), w2) \<longrightarrow> restartAttempts w2 = 0"
    using initializeBrowser_Ret by blast
  from incr fatal entered reset run_fiveFailures [of w] show ?thesis
    by (intro conjI impI) simp_all
qed

theorem C4_restart_attempts_witness:
  "\<not> isRestarting idle \<and>
   handleBrowserCrash quiet (idle\<lparr>restartAttempts := 3\<rparr>) =
     (Ret (), idle\<lparr>tick := 6, trace := [ClosePages, PoolDrain, PoolClear, BrowserClose, Launch, CreatePool],
        now := 5000\<rparr>) \<and>
   restartAttempts (snd (handleBrowserCrash failingLaunch (idle\<lparr>restartAttempts := 3\<rparr>))) = 4 \<and>
   fst (handleBrowserCrash failingLaunch (idle\<lparr>restartAttempts := 5\<rparr>)) = Exit 1 \<and>
   trace (snd (handleBrowserCrash failingLaunch (idle\<lparr>restartAttempts := 5\<rparr>))) = [ProcessExit 1] \<and>
   exited (sv_world (run (fiveFailures @ [Trigger]) (started idle)))"
proof -
  have idle: "\<not> isRestarting (idle\<lparr>restartAttempts := 5\<rparr>)"
    by (simp add: idle_def)
  have ok: "handleBrowserCrash quiet (idle\<lparr>restartAttempts := 3\<rparr>) =
     (Ret (), idle\<lparr>tick := 6, trace := [ClosePages, PoolDrain, PoolClear, BrowserClose, Launch, CreatePool],
        now := 5000\<rparr>)"
    by (simp add: handleBrowserCrash_def enterRestart_def restartSequence_def teardown_def
        initializeBrowser_def await_def awaitCaught_def sleep_def observe_def andThen_def
        tryCatch_def browserUp_def quiet_def calm_def idle_def Let_def
        MAX_RESTART_ATTEMPTS_def RESTART_DELAY_def)
  have failed: "restartAttempts (snd (handleBrowserCrash failingLaunch (idle\<lparr>restartAttempts := 3\<rparr>))) = 4"
    by (simp add: handleBrowserCrash_def enterRestart_def restartSequence_def teardown_def
        initializeBrowser_def await_def awaitCaught_def sleep_def observe_def andThen_def
        tryCatch_def browserUp_def failingLaunch_def calm_def idle_def Let_def restartFailed_def
        MAX_RESTART_ATTEMPTS_def RESTART_DELAY_def)
  have idle0: "\<not> isRestarting idle"
    by (simp add: idle_def)
  from C4_restart_attempts [OF idle, of failingLaunch] C4_restart_attempts [OF idle0, of quiet]
    idle0 ok failed
  show ?thesis
    by (simp add: MAX_RESTART_ATTEMPTS_def) (simp add: idle_def)
qed

section \<open>Results about pool validation\<close>

lemma validate_iff:
  "validate b pg \<longleftrightarrow>
     (\<exists>p. pg = Some p \<and> \<not> p_isClosed p) \<and> (\<exists>c. b = Some c \<and> isConnected c)"
  by (auto simp: validate_def split: option.splits)

lemma n8n_validate_iff:
  "n8n_validate t b pg \<longleftrightarrow>
     (\<exists>p. pg = Some p \<and> \<not> p_isClosed p \<and> \<not> p_hasError p \<and> t - p_created p < 300000) \<and>
     (\<exists>c. b = Some c \<and> isConnected c)"
  by (auto simp: n8n_validate_def n8n_maxAge_def split: option.splits)

text \<open>
  C8, as stated, fails on \<^verbatim>\<open>server.mjs\<close>: its \<^verbatim>\<open>validate\<close> never looks at the age of the
  page. A page created at time 0 that is open, on a connected browser, is valid one day
  later (86400000 ms), far beyond the five minutes that \<^verbatim>\<open>server-n8n-optimized.mjs\<close>
  allows, where the same page is rejected.
\<close>

theorem C8_validate_ignores_age_counterexample:
  "n8n_maxAge < 86400000 - p_created oldPage \<and>
   validate (Some \<lparr>isConnected = True\<rparr>) (Some oldPage) \<and>
   \<not> n8n_validate 86400000 (Some \<lparr>isConnected = True\<rparr>) (Some oldPage)"
  by (simp add: validate_def n8n_validate_def n8n_maxAge_def oldPage_def)

text \<open>
  C8, amended: \<^verbatim>\<open>validate\<close> of \<^verbatim>\<open>server.mjs\<close> accepts a page exactly when the page
  exists and is not closed and the browser exists and is connected; it has no maximum age.
  \<^verbatim>\<open>validate\<close> of \<^verbatim>\<open>server-n8n-optimized.mjs\<close> accepts a page exactly when, in addition,
  the page has recorded no error and is less than 300000 ms old; so it rejects every page
  whose age exceeds 300000 ms, every closed page, every page with an error, and every page
  when the browser is missing or disconnected.
\<close>

theorem C8_validate_conditions:
  "(validate b pg \<longleftrightarrow>
      (\<exists>p. pg = Some p \<and> \<not> p_isClosed p) \<and> (\<exists>c. b = Some c \<and> isConnected c)) \<and>
   (n8n_validate t b pg \<longleftrightarrow>
      (\<exists>p. pg = Some p \<and> \<not> p_isClosed p \<and> \<not> p_hasError p \<and> t - p_created p < n8n_maxAge) \<and>
      (\<exists>c. b = Some c \<and> isConnected c)) \<and>
   (n8n_validate t b (Some p) \<longrightarrow>
      \<not> n8n_maxAge < t - p_created p \<and> \<not> p_isClosed p \<and> \<not> p_hasError p \<and>
      b = Some \<lparr>isConnected = True\<rparr>)"
proof -
  have v: "validate b pg \<longleftrightarrow>
      (\<exists>p. pg = Some p \<and> \<not> p_isClosed p) \<and> (\<exists>c. b = Some c \<and> isConnected c)"
    by (rule validate_iff)
  have n: "n8n_validate t b pg \<longleftrightarrow>
      (\<exists>p. pg = Some p \<and> \<not> p_isClosed p \<and> \<not> p_hasError p \<and> t - p_created p < n8n_maxAge) \<and>
      (\<exists>c. b = Some c \<and> isConnected c)"
    by (simp add: n8n_validate_iff n8n_maxAge_def)
  have r: "n8n_validate t b (Some p) \<longrightarrow>
      \<not> n8n_maxAge < t - p_created p \<and> \<not> p_isClosed p \<and> \<not> p_hasError p \<and>
      b = Some \<lparr>isConnected = True\<rparr>"
    by (auto simp: n8n_validate_def split: option.splits)
  from v n r show ?thesis
    by (intro conjI)
qed

theorem C8_validate_conditions_witness:
  "n8n_validate 200000 (Some \<lparr>isConnected = True\<rparr>) (Some oldPage) \<and>
   \<not> n8n_maxAge < 200000 - p_created oldPage \<and>
   \<not> n8n_validate 300000 (Some \<lparr>isConnected = True\<rparr>) (Some oldPage) \<and>
   \<not> validate (Some \<lparr>isConnected = False\<rparr>) (Some oldPage) \<and>
   \<not> validate (Some \<lparr>isConnected = True\<rparr>) (Some (oldPage\<lparr>p_isClosed := True\<rparr>))"
proof -
  have a: "n8n_validate 200000 (Some \<lparr>isConnected = True\<rparr>) (Some oldPage)"
    by (simp add: n8n_validate_def n8n_maxAge_def oldPage_def)
  from a C8_validate_conditions [of "Some \<lparr>isConnected = True\<rparr>" "Some oldPage" 200000 oldPage]
    C8_validate_conditions [of "Some \<lparr>isConnected = True\<rparr>" "Some oldPage" 300000 oldPage]
    C8_validate_conditions [of "Some \<lparr>isConnected = False\<rparr>" "Some oldPage" 0 oldPage]
    C8_validate_conditions [of "Some \<lparr>isConnected = True\<rparr>"
      "Some (oldPage\<lparr>p_isClosed := True\<rparr>)" 0 oldPage]
  show ?thesis
    by (simp add: n8n_maxAge_def oldPage_def)
qed

section \<open>Results about the URL guard of runScrapeJob\<close>

lemma urlRejected_iff:
  "urlRejected P u \<longleftrightarrow>
     u = None \<or> u = Some [] \<or>
     (\<exists>s. u = Some s \<and>
        (parseUrl P s = None \<or>
         (\<exists>v. parseUrl P s = Some v \<and> protocol v \<noteq> ''http:'' \<and> protocol v \<noteq> ''https:'')))"
  by (auto simp: urlRejected_def isValidUrl_def split: option.splits)

text \<open>
  C2: for every job whose \<^verbatim>\<open>url\<close> is absent or empty, does not parse, or parses with a
  scheme other than \<^verbatim>\<open>http:\<close> and \<^verbatim>\<open>https:\<close>, \<^verbatim>\<open>runScrapeJob\<close> returns the JSON failure
  whose message names the URL, and the state it returns in is the state it started in: no
  call was made, so no page was acquired from the pool.
\<close>

theorem C2_invalid_url_rejected:
  assumes "c_url ctx = None \<or> c_url ctx = Some [] \<or>
     (\<exists>s. c_url ctx = Some s \<and>
        (parseUrl P s = None \<or>
         (\<exists>v. parseUrl P s = Some v \<and> protocol v \<noteq> ''http:'' \<and> protocol v \<noteq> ''https:'')))"
  shows "runScrapeJob env P ctx w =
           (Ret \<lparr>r_data = Json False (''Invalid URL: '' @ shown (c_url ctx) @
                               ''. URL must start with http:// or https://''),
                 r_type = ''application/json''\<rparr>, w) \<and>
         trace (snd (runScrapeJob env P ctx w)) = trace w \<and>
         tick (snd (runScrapeJob env P ctx w)) = tick w"
proof -
  have "urlRejected P (c_url ctx)"
    using assms unfolding urlRejected_iff by blast
  then have "runScrapeJob env P ctx w = (Ret (invalidUrl (c_url ctx)), w)"
    by (simp add: runScrapeJob_def)
  then show ?thesis
    by (simp add: invalidUrl_def failure_def)
qed

lemma acquire_quiet:
  "acquire quiet w = (Ret calm, w\<lparr>trace := trace w @ [PoolAcquire], tick := tick w + 1, pageClosed := False\<rparr>)"
  by (simp add: acquire_def race_def quiet_def calm_def observe_def Let_def)

theorem C2_invalid_url_rejected_witness:
  "runScrapeJob quiet web (plainJob\<lparr>c_url := Some ''ftp://files.acme.com/x''\<rparr>) idle =
     (Ret \<lparr>r_data = Json False
              ''Invalid URL: ftp://files.acme.com/x. URL must start with http:// or https://'',
           r_type = ''application/json''\<rparr>, idle) \<and>
   runScrapeJob quiet web (plainJob\<lparr>c_url := Some ''not a url''\<rparr>) idle =
     (Ret \<lparr>r_data = Json False
              ''Invalid URL: not a url. URL must start with http:// or https://'',
           r_type = ''application/json''\<rparr>, idle) \<and>
   runScrapeJob quiet web (plainJob\<lparr>c_url := None\<rparr>) idle =
     (Ret \<lparr>r_data = Json False
              ''Invalid URL: undefined. URL must start with http:// or https://'',
           r_type = ''application/json''\<rparr>, idle) \<and>
   trace idle = [] \<and>
   \<not> urlRejected web (c_url plainJob) \<and>
   fst (acquirePage quiet 1 idle) = Ret True \<and>
   trace (snd (acquirePage quiet 1 idle)) = [PoolAcquire]"
proof -
  have ftp: "parseUrl web ''ftp://files.acme.com/x'' =
      Some \<lparr>protocol = ''ftp:'', hostname = ''files.acme.com''\<rparr>"
    by (simp add: web_def)
  have bad: "parseUrl web ''not a url'' = None"
    by (simp add: web_def)
  have ok: "\<not> urlRejected web (c_url plainJob)"
    by (simp add: urlRejected_def isValidUrl_def plainJob_def web_def)
  have acq: "acquirePage quiet 1 idle =
      (Ret True, idle\<lparr>trace := trace idle @ [PoolAcquire], tick := tick idle + 1, pageClosed := False\<rparr>)"
    by (subst acquirePage.simps) (simp add: acquire_quiet calm_def)
  from C2_invalid_url_rejected [of "plainJob\<lparr>c_url := Some ''ftp://files.acme.com/x''\<rparr>" web quiet idle]
    C2_invalid_url_rejected [of "plainJob\<lparr>c_url := Some ''not a url''\<rparr>" web quiet idle]
    C2_invalid_url_rejected [of "plainJob\<lparr>c_url := None\<rparr>" web quiet idle]
    ftp bad ok acq
  show ?thesis
    by (simp add: shown_def idle_def)
qed

section \<open>Results about the login and the stages after it\<close>

lemma classifyLogin_iff:
  "classifyLogin currentUrl loginUrl stepSuccess nSteps \<longleftrightarrow>
     currentUrl \<noteq> loginUrl \<or> 3 * nSteps \<le> 4 * stepSuccess"
proof -
  have "(of_nat nSteps :: rat) * (3 / 4) \<le> of_nat stepSuccess \<longleftrightarrow>
        (of_nat (3 * nSteps) :: rat) \<le> of_nat (4 * stepSuccess)"
    by (simp add: field_simps)
  also have "\<dots> \<longleftrightarrow> 3 * nSteps \<le> 4 * stepSuccess"
    by (simp only: of_nat_le_iff)
  finally show ?thesis
    by (simp add: classifyLogin_def)
qed





lemma race_no_hang: "race env a ms msg w \<noteq> (Hang, w')"
  by (auto simp: race_def Let_def split: settle.splits)

lemma race_no_exit: "race env a ms msg w \<noteq> (Exit c, w')"
  by (auto simp: race_def Let_def split: settle.splits)

lemma switchStep_Wait:
  "switchStep env P creds name (Wait t) n w = (Ret (n + 1), sleep env (waitTime t) w)"
  by simp

lemma runStep_Wait:
  "runStep env P creds name (Wait t) n w =
     (Ret (n + 1), sleep env 1000 (sleep env (waitTime t) w))"
  by (simp add: runStep_def)

lemma loginSteps_onlyWaits:
  "onlyWaits sts \<Longrightarrow> loginSteps env P creds name sts n w = (Ret m, w') \<Longrightarrow>
     m = n + length sts"
proof (induction sts arbitrary: n w)
  case Nil
  then show ?case by simp
next
  case (Cons st sts)
  from Cons.prems(1) obtain t where st: "st = Wait t" and rest: "onlyWaits sts"
    by (cases st) (simp_all add: onlyWaits_def)
  from Cons.prems(2) have
    "loginSteps env P creds name sts (n + 1) (sleep env 1000 (sleep env (waitTime t) w)) = (Ret m, w')"
    by (simp add: st runStep_Wait split: if_splits)
  from Cons.IH [OF rest this] show ?case by simp
qed

lemma loginAttempt_Ret:
  assumes "loginAttempt env P creds ls w = (Ret b, w')"
  shows "\<exists>n wa wb. loginSteps env P creds (site ls) (steps ls) 0 wa = (Ret n, wb) \<and>
           w' = sleep env 3000 wb \<and> \<not> pageClosed w' \<and>
           b = classifyLogin (pageUrl w') (ls_url ls) n (length (steps ls))"
  using assms unfolding loginAttempt_def andThen_def
  by (auto simp: Let_def split: prod.splits outcome.splits if_splits)


text \<open>
  An object of the request body inherits \<^verbatim>\<open>constructor\<close>: with no credentials given,
  the guard of the login is passed for a site of that name, and the \<^verbatim>\<open>name\<close> of the
  inherited function is what an \<^verbatim>\<open>input\<close> step types, while its \<^verbatim>\<open>length\<close> cannot be
  typed. An own property comes first, and a missing one gives the empty string.
\<close>

lemma credential_lookup:
  "siteCredentials web Map.empty (toLowerCase web ''Constructor'') \<noteq> None \<and>
   credential web Map.empty ''Constructor'' ''name'' = Some (Text ''Object'') \<and>
   credential web Map.empty ''Constructor'' ''length'' = Some Opaque \<and>
   credential web Map.empty ''Acme'' ''user'' = None \<and>
   credential web [''acme'' \<mapsto> [''user'' \<mapsto> ''ann'']] ''Acme'' ''user'' = Some (Text ''ann'') \<and>
   credential web [''acme'' \<mapsto> Map.empty] ''Acme'' ''user'' = Some (Text [])"
  by (simp add: siteCredentials_def credential_def member_def orEmpty_def web_def
      lowerASCII_def objectPrototype_def)

lemma humanType_Ret: "humanType env sel str w = (r, w') \<Longrightarrow> r \<noteq> Throw e"
  unfolding humanType_def tryCatch_def
  by (auto split: prod.splits outcome.splits)









lemma extends_same_trace: "trace w1 = trace w \<Longrightarrow> extends w w1"
  by (simp add: extends_def)










lemma goto_no_hang: "goto env u w \<noteq> (Hang, w')" "goto env u w \<noteq> (Exit c, w')"
  by (simp_all add: goto_def race_no_hang race_no_exit)












lemma configAttempts_ok:
  "\<not> pageClosed w \<Longrightarrow> race env a 10000 msg w = (Ret r, w') \<Longrightarrow> attempt \<le> 3 \<Longrightarrow>
     configAttempts env a msg attempt w = (Ret (), w')"
  by (subst configAttempts.simps) simp

lemma configure_ok:
  assumes "\<not> pageClosed w"
    and "race env SetUserAgent 10000 ''User agent timeout'' w = (Ret r1, w1)"
    and "\<not> pageClosed w1"
    and "race env (SetViewport 1366 768) 10000 ''Viewport timeout'' w1 = (Ret r2, w2)"
  shows "configure env w = (Ret (), w2)"
  using configAttempts_ok [OF assms(1,2), of 1] configAttempts_ok [OF assms(3,4), of 1]
  by (simp add: configure_def tryCatch_def andThen_def)













text \<open>
  C10: a \<^verbatim>\<open>wait\<close> step always counts as a success, whatever the state of the page and
  whatever the environment does; so a step list of \<^verbatim>\<open>wait\<close> steps only ends with as many
  successes as steps, and when the decision is reached the login is classified as
  successful, also when the URL has not changed.
\<close>

theorem C10_wait_steps_always_succeed:
  "switchStep env P creds name (Wait t) n w = (Ret (n + 1), sleep env (waitTime t) w) \<and>
   fst (runStep env P creds name (Wait t) n w) = Ret (n + 1) \<and>
   (onlyWaits sts \<and> loginSteps env P creds name sts n w = (Ret m, w1) \<longrightarrow>
      m = n + length sts) \<and>
   (onlyWaits (steps ls) \<and> loginAttempt env P creds ls w = (Ret loginSuccess, w') \<longrightarrow>
      loginSuccess)"
proof (intro conjI impI)
  show "switchStep env P creds name (Wait t) n w = (Ret (n + 1), sleep env (waitTime t) w)"
    by (rule switchStep_Wait)
  show "fst (runStep env P creds name (Wait t) n w) = Ret (n + 1)"
    by (simp add: runStep_Wait)
next
  assume "onlyWaits sts \<and> loginSteps env P creds name sts n w = (Ret m, w1)"
  then show "m = n + length sts"
    using loginSteps_onlyWaits by blast
next
  assume a: "onlyWaits (steps ls) \<and> loginAttempt env P creds ls w = (Ret loginSuccess, w')"
  then obtain k wa wb where
    loop: "loginSteps env P creds (site ls) (steps ls) 0 wa = (Ret k, wb)" and
    verdict: "loginSuccess = classifyLogin (pageUrl w') (ls_url ls) k (length (steps ls))"
    using loginAttempt_Ret by blast
  from a loop have "k = length (steps ls)"
    using loginSteps_onlyWaits by fastforce
  with verdict show loginSuccess
    by (simp add: classifyLogin_iff)
qed

lemma loginAttempt_waits:
  "loginAttempt browsing web Map.empty (waitingSite [Wait None, Wait (Some 200)]) atLogin =
   (Ret True, atLogin\<lparr>now := 6700, tick := 6, trace := [Screenshot 60 None]\<rparr>)"
  by (simp add: loginAttempt_def andThen_def await_def runStep_def sleep_def observe_def
      browsing_def calm_def classifyLogin_iff waitingSite_def atLogin_def idle_def Let_def
      waitTime_def)

theorem C10_wait_steps_always_succeed_witness:
  "onlyWaits (steps (waitingSite [Wait None, Wait (Some 200)])) \<and>
   loginAttempt browsing web Map.empty (waitingSite [Wait None, Wait (Some 200)]) atLogin =
     (Ret True, atLogin\<lparr>now := 6700, tick := 6, trace := [Screenshot 60 None]\<rparr>) \<and>
   pageUrl (atLogin\<lparr>now := 6700, tick := 6, trace := [Screenshot 60 None]\<rparr>) =
     ls_url (waitingSite [Wait None, Wait (Some 200)]) \<and>
   fst (runStep browsing web Map.empty ''Acme'' (Wait None) 0 (atLogin\<lparr>pageClosed := True\<rparr>)) = Ret 1"
proof -
  have waits: "onlyWaits (steps (waitingSite [Wait None, Wait (Some 200)]))"
    by (simp add: onlyWaits_def waitingSite_def)
  have same: "pageUrl (atLogin\<lparr>now := 6700, tick := 6, trace := [Screenshot 60 None]\<rparr>) =
     ls_url (waitingSite [Wait None, Wait (Some 200)])"
    by (simp add: atLogin_def waitingSite_def)
  from C10_wait_steps_always_succeed
    [where env = browsing and P = web and creds = Map.empty
       and ls = "waitingSite [Wait None, Wait (Some 200)]" and w = atLogin
       and loginSuccess = True
       and w' = "atLogin\<lparr>now := 6700, tick := 6, trace := [Screenshot 60 None]\<rparr>"]
    C10_wait_steps_always_succeed
    [where env = browsing and P = web and creds = Map.empty and name = "''Acme''"
       and t = None and n = 0 and w = "atLogin\<lparr>pageClosed := True\<rparr>"]
    waits same loginAttempt_waits
  show ?thesis
    by simp
qed

section \<open>Results about the capture\<close>

lemma sleep_tick: "tick (sleep env ms w) = tick w + 1"
  by (simp add: sleep_def observe_def)

lemma sleep_closed:
  "pageClosed (sleep env ms w) \<longleftrightarrow> pageClosed w \<or> closes (env (tick w) (Timer ms))"
  by (simp add: sleep_def observe_def)

lemma primaryAttempt_closed:
  "pageClosed w \<Longrightarrow> primaryAttempt env w = (Throw ''Page closed before screenshot attempt'', w)"
  by (simp add: primaryAttempt_def)

lemma primaryAttempt_open:
  assumes "\<not> pageClosed w"
  shows "trace (snd (primaryAttempt env w)) = trace w @ [primaryShot]"
    and "tick (snd (primaryAttempt env w)) = tick w + 1"
    and "pageClosed (snd (primaryAttempt env w)) = closes (env (tick w) primaryShot)"
    and "primaryWins (env (tick w) primaryShot) \<Longrightarrow>
           fst (primaryAttempt env w) = Ret (env (tick w) primaryShot)"
    and "\<not> primaryWins (env (tick w) primaryShot) \<Longrightarrow>
           fst (primaryAttempt env w) = Throw (primaryError (env (tick w) primaryShot))"
  using assms
  by (auto simp: primaryAttempt_def race_def observe_def Let_def primaryWins_def
      primaryError_def split: settle.splits)

lemma fallbackAttempt_open:
  assumes "\<not> pageClosed w"
  shows "trace (snd (fallbackAttempt env w)) = trace w @ [fallbackShot]"
    and "tick (snd (fallbackAttempt env w)) = tick w + 1"
    and "settle (env (tick w) fallbackShot) = Resolves \<Longrightarrow>
           fst (fallbackAttempt env w) = Ret (env (tick w) fallbackShot)"
    and "settle (env (tick w) fallbackShot) = Rejects e \<Longrightarrow>
           fst (fallbackAttempt env w) = Throw e"
    and "settle (env (tick w) fallbackShot) = Never \<Longrightarrow>
           fst (fallbackAttempt env w) = Hang"
  using assms
  by (auto simp: fallbackAttempt_def await_def observe_def Let_def split: settle.splits)

lemma attempts_closed:
  "pageClosed w \<Longrightarrow> attempt \<le> 3 \<Longrightarrow>
     screenshotAttempts env attempt w = (Throw ''Page closed during screenshot'', w)"
  by (subst screenshotAttempts.simps) (simp add: primaryAttempt_closed)

lemma attempts_win:
  assumes "\<not> pageClosed w" "attempt \<le> 3" "primaryWins (env (tick w) primaryShot)"
  shows "screenshotAttempts env attempt w =
           (Ret (Some (bytes (env (tick w) primaryShot))), snd (primaryAttempt env w))"
  using assms primaryAttempt_open(4) [of w env]
  by (subst screenshotAttempts.simps) (cases "primaryAttempt env w", simp)

lemma attempts_closing:
  assumes "\<not> pageClosed w" "attempt \<le> 3" "\<not> primaryWins (env (tick w) primaryShot)"
    "closes (env (tick w) primaryShot)"
  shows "screenshotAttempts env attempt w =
           (Throw ''Page closed during screenshot'', snd (primaryAttempt env w))"
  using assms primaryAttempt_open(5) [of w env] primaryAttempt_open(3) [of w env]
  by (subst screenshotAttempts.simps) (cases "primaryAttempt env w", auto)

lemma attempts_retry:
  assumes "\<not> pageClosed w" "attempt < 3" "\<not> primaryWins (env (tick w) primaryShot)"
    "\<not> closes (env (tick w) primaryShot)"
  shows "screenshotAttempts env attempt w =
           screenshotAttempts env (attempt + 1) (sleep env 3000 (snd (primaryAttempt env w)))"
  using assms primaryAttempt_open(5) [of w env] primaryAttempt_open(3) [of w env]
  by (subst screenshotAttempts.simps) (cases "primaryAttempt env w", auto)

lemma attempts_fallback:
  assumes "\<not> pageClosed w" "\<not> primaryWins (env (tick w) primaryShot)"
    "\<not> closes (env (tick w) primaryShot)"
  shows "trace (snd (screenshotAttempts env 3 w)) = trace w @ [primaryShot, fallbackShot]"
    and "settle (env (tick w + 1) fallbackShot) = Resolves \<Longrightarrow>
           fst (screenshotAttempts env 3 w) = Ret (Some (bytes (env (tick w + 1) fallbackShot)))"
    and "settle (env (tick w + 1) fallbackShot) = Rejects fe \<Longrightarrow>
           fst (screenshotAttempts env 3 w) = Throw (primaryError (env (tick w) primaryShot))"
    and "settle (env (tick w + 1) fallbackShot) = Never \<Longrightarrow>
           fst (screenshotAttempts env 3 w) = Hang"
proof -
  obtain x y where p: "primaryAttempt env w = (x, y)"
    by (cases "primaryAttempt env w")
  define e where "e = primaryError (env (tick w) primaryShot)"
  from primaryAttempt_open [of w env] assms p have
    x: "x = Throw e" and ty: "trace y = trace w @ [primaryShot]" and
    ky: "tick y = tick w + 1" and cy: "\<not> pageClosed y"
    by (auto simp: e_def)
  obtain x2 y2 where f: "fallbackAttempt env y = (x2, y2)"
    by (cases "fallbackAttempt env y")
  have unfold: "screenshotAttempts env 3 w =
      (case x2 of Ret r \<Rightarrow> (Ret (Some (bytes r)), y2)
       | Throw fe \<Rightarrow> (Throw e, y2) | Hang \<Rightarrow> (Hang, y2) | Exit c \<Rightarrow> (Exit c, y2))"
    using p x cy f by (subst screenshotAttempts.simps) (simp split: outcome.splits)
  from fallbackAttempt_open(1) [OF cy, of env] f ty
  show "trace (snd (screenshotAttempts env 3 w)) = trace w @ [primaryShot, fallbackShot]"
    unfolding unfold by (simp split: outcome.splits)
  show "fst (screenshotAttempts env 3 w) = Ret (Some (bytes (env (tick w + 1) fallbackShot)))"
    if "settle (env (tick w + 1) fallbackShot) = Resolves"
    using fallbackAttempt_open(3) [OF cy, of env] f ky that unfolding unfold by simp
  show "fst (screenshotAttempts env 3 w) = Throw (primaryError (env (tick w) primaryShot))"
    if "settle (env (tick w + 1) fallbackShot) = Rejects fe"
    using fallbackAttempt_open(4) [OF cy, of env fe] f ky that unfolding unfold by (simp add: e_def)
  show "fst (screenshotAttempts env 3 w) = Hang"
    if "settle (env (tick w + 1) fallbackShot) = Never"
    using fallbackAttempt_open(5) [OF cy, of env] f ky that unfolding unfold by simp
qed

lemma last_attempt:
  assumes "\<not> pageClosed w" and run: "screenshotAttempts env 3 w = (r, w')"
  shows "stopped 1 w r w' \<or>
         (\<not> primaryWins (env (tick w) primaryShot) \<and> \<not> closes (env (tick w) primaryShot) \<and>
          trace w' = trace w @ [primaryShot, fallbackShot] \<and>
          fellBack (env (tick w) primaryShot) (env (tick w + 1) fallbackShot) r)"
proof (cases "primaryWins (env (tick w) primaryShot)")
  case True
  from attempts_win [where w = w and env = env and attempt = 3] assms(1) True run
    primaryAttempt_open(1) [OF assms(1), of env]
  show ?thesis by (auto simp: stopped_def)
next
  case False
  show ?thesis
  proof (cases "closes (env (tick w) primaryShot)")
    case True
    from attempts_closing [where w = w and env = env and attempt = 3] assms(1) False run
      primaryAttempt_open(1,3) [OF assms(1), of env] True
    show ?thesis by (auto simp: stopped_def)
  next
    case open3: False
    note fb = attempts_fallback [where w = w and env = env, OF assms(1) False open3]
    have "fellBack (env (tick w) primaryShot) (env (tick w + 1) fallbackShot) r"
    proof (cases "settle (env (tick w + 1) fallbackShot)")
      case Resolves
      with fb(2) run show ?thesis by (simp add: fellBack_def)
    next
      case (Rejects fe)
      with fb(3) [of fe] run show ?thesis by (simp add: fellBack_def)
    next
      case Never
      with fb(4) run show ?thesis by (simp add: fellBack_def)
    qed
    with fb(1) run False open3 show ?thesis by simp
  qed
qed

lemma earlier_attempt:
  assumes "\<not> pageClosed w" and "attempt < 3" and run: "screenshotAttempts env attempt w = (r, w')"
  shows "stopped 1 w r w' \<or>
         (\<not> primaryWins (env (tick w) primaryShot) \<and> \<not> closes (env (tick w) primaryShot) \<and>
          \<not> closes (env (tick w + 1) (Timer 3000)) \<and>
          (\<exists>w2. \<not> pageClosed w2 \<and> tick w2 = tick w + 2 \<and> trace w2 = trace w @ [primaryShot] \<and>
                screenshotAttempts env (attempt + 1) w2 = (r, w')))"
proof (cases "primaryWins (env (tick w) primaryShot)")
  case True
  from attempts_win [where w = w and env = env and attempt = attempt] assms(1,2) True run
    primaryAttempt_open(1) [OF assms(1), of env]
  show ?thesis by (auto simp: stopped_def)
next
  case False
  show ?thesis
  proof (cases "closes (env (tick w) primaryShot)")
    case True
    from attempts_closing [where w = w and env = env and attempt = attempt] assms(1,2) False run
      primaryAttempt_open(1,3) [OF assms(1), of env] True
    show ?thesis by (auto simp: stopped_def)
  next
    case open1: False
    define w2 where "w2 = sleep env 3000 (snd (primaryAttempt env w))"
    have rec: "screenshotAttempts env (attempt + 1) w2 = (r, w')"
      using attempts_retry [where w = w and env = env and attempt = attempt] assms(1,2) False open1 run
      by (simp add: w2_def)
    have t2: "trace w2 = trace w @ [primaryShot]" and k2: "tick w2 = tick w + 2"
      and c2: "pageClosed w2 = closes (env (tick w + 1) (Timer 3000))"
      using primaryAttempt_open(1,2,3) [OF assms(1), of env] open1
      by (simp_all add: w2_def sleep_tick sleep_closed sleep_def observe_def)
    show ?thesis
    proof (cases "pageClosed w2")
      case True
      from attempts_closed [where w = w2 and env = env and attempt = "attempt + 1"] assms(2) rec t2 True
      show ?thesis by (auto simp: stopped_def)
    next
      case False2: False
      with rec t2 k2 c2 False open1 show ?thesis by auto
    qed
  qed
qed

lemma andThen_Ret:
  "andThen m f w = (Ret b, w') \<Longrightarrow> \<exists>a w1. m w = (Ret a, w1) \<and> f a w1 = (Ret b, w')"
  by (auto simp: andThen_def split: prod.splits outcome.splits)

lemma scrape_Ret:
  assumes "scrape env P ctx target w = (Ret b, w')"
  shows "\<exists>wc. capture env wc = (Ret b, w')"
proof -
  from andThen_Ret [OF assms [unfolded scrape_def]] obtain w1 where
    "andThen (login env P ctx target) (\<lambda>loginSuccess. afterLogin env target) w1 = (Ret b, w')"
    by blast
  from andThen_Ret [OF this] obtain w2 where "afterLogin env target w2 = (Ret b, w')"
    by blast
  from andThen_Ret [OF this [unfolded afterLogin_def]] obtain w3 where
    "andThen (scroll env)
       (\<lambda>_. andThen (\<lambda>w. if \<not> pageClosed w then dismissCookies env w else (Ret (), w))
       (\<lambda>_. andThen
               (\<lambda>w. if pageClosed w then (Throw ''Page closed before taking screenshot'', w)
                    else memoryCleanup env w)
       (\<lambda>_. capture env))) w3 = (Ret b, w')"
    by blast
  from andThen_Ret [OF this] obtain w4 where
    "andThen (\<lambda>w. if \<not> pageClosed w then dismissCookies env w else (Ret (), w))
       (\<lambda>_. andThen
               (\<lambda>w. if pageClosed w then (Throw ''Page closed before taking screenshot'', w)
                    else memoryCleanup env w)
       (\<lambda>_. capture env)) w4 = (Ret b, w')"
    by blast
  from andThen_Ret [OF this] obtain w5 where
    "andThen (\<lambda>w. if pageClosed w then (Throw ''Page closed before taking screenshot'', w)
                    else memoryCleanup env w)
       (\<lambda>_. capture env) w5 = (Ret b, w')"
    by blast
  from andThen_Ret [OF this] show ?thesis
    by blast
qed

lemma capture_outcome:
  "capture env w = (r, w') \<Longrightarrow>
     \<exists>r0. screenshotAttempts env 1 w = (r0, w') \<and>
       (case r0 of
          Ret None \<Rightarrow> r = Throw ''Failed to capture screenshot after multiple attempts''
        | Ret (Some b) \<Rightarrow> r = Ret b
        | Throw e \<Rightarrow> r = Throw e
        | Hang \<Rightarrow> r = Hang
        | Exit c \<Rightarrow> r = Exit c)"
  by (auto simp: capture_def andThen_def split: prod.splits outcome.splits option.splits)

lemma capture_needs_open_page:
  assumes "capture env w = (Ret b, w')"
  shows "\<not> pageClosed w"
proof
  assume "pageClosed w"
  from attempts_closed [OF this, of 1 env] assms show False
    by (simp add: capture_def andThen_def)
qed

lemma priceScraper_image:
  assumes "priceScraper env P ctx w = (Ret \<lparr>r_data = Image b, r_type = ty\<rparr>, w')"
  shows "ty = ''image/jpeg'' \<and> (\<exists>wc. \<not> pageClosed wc \<and> capture env wc = (Ret b, w'))"
proof -
  from assms obtain target where "scrape env P ctx target w = (Ret b, w')" and "ty = ''image/jpeg''"
    by (auto simp: priceScraper_def invalidUrl_def failure_def
        split: option.splits if_splits prod.splits outcome.splits)
  with scrape_Ret capture_needs_open_page show ?thesis
    by blast
qed

lemma three_failures:
  assumes op: "\<not> pageClosed w"
    and f1: "\<not> primaryWins (env (tick w) primaryShot)"
    and f2: "\<not> primaryWins (env (tick w + 2) primaryShot)"
    and f3: "\<not> primaryWins (env (tick w + 4) primaryShot)"
    and c0: "\<not> closes (env (tick w) primaryShot)"
    and c1: "\<not> closes (env (tick w + 1) (Timer 3000))"
    and c2: "\<not> closes (env (tick w + 2) primaryShot)"
    and c3: "\<not> closes (env (tick w + 3) (Timer 3000))"
    and c4: "\<not> closes (env (tick w + 4) primaryShot)"
  shows "\<exists>w3. \<not> pageClosed w3 \<and> tick w3 = tick w + 4 \<and>
           trace w3 = trace w @ [primaryShot, primaryShot] \<and>
           screenshotAttempts env 1 w = screenshotAttempts env 3 w3"
proof -
  define w2 where "w2 = sleep env 3000 (snd (primaryAttempt env w))"
  have s1: "screenshotAttempts env 1 w = screenshotAttempts env 2 w2"
    using attempts_retry [where w = w and env = env and attempt = 1] op f1 c0
    by (simp add: w2_def numeral_2_eq_2)
  have t2: "trace w2 = trace w @ [primaryShot]" and k2: "tick w2 = tick w + 2"
    and o2: "\<not> pageClosed w2"
    using primaryAttempt_open(1,2,3) [OF op, of env] c0 c1
    by (simp_all add: w2_def sleep_tick sleep_closed sleep_def observe_def)
  define w3 where "w3 = sleep env 3000 (snd (primaryAttempt env w2))"
  have s2: "screenshotAttempts env 2 w2 = screenshotAttempts env 3 w3"
    using attempts_retry [where w = w2 and env = env and attempt = 2] o2 f2 c2 k2
    by (simp add: w3_def)
  have "trace w3 = trace w @ [primaryShot, primaryShot]" and "tick w3 = tick w + 4"
    and "\<not> pageClosed w3"
    using primaryAttempt_open(1,2,3) [OF o2, of env] c2 c3 t2 k2
    by (simp_all add: w3_def sleep_tick sleep_closed sleep_def observe_def numeral_3_eq_3)
  with s1 s2 show ?thesis
    by auto
qed

lemma capture_cases:
  assumes op: "\<not> pageClosed w" and run: "capture env w = (r, w')"
  shows
    "((\<exists>k. 1 \<le> k \<and> k \<le> 3 \<and> trace w' = trace w @ replicate k primaryShot) \<and>
        ((\<exists>b. r = Ret b) \<or> (r = Throw ''Page closed during screenshot'' \<and> pageClosed w'))) \<or>
     (trace w' = trace w @ [primaryShot, primaryShot, primaryShot, fallbackShot] \<and>
      ((settle (env (tick w + 5) fallbackShot) = Resolves \<and>
          r = Ret (bytes (env (tick w + 5) fallbackShot))) \<or>
       ((\<exists>e. settle (env (tick w + 5) fallbackShot) = Rejects e) \<and>
          r = Throw (primaryError (env (tick w + 4) primaryShot))) \<or>
       (settle (env (tick w + 5) fallbackShot) = Never \<and> r = Hang)))"
proof -
  from capture_outcome [OF run] obtain r0 where
    loop: "screenshotAttempts env 1 w = (r0, w')" and
    out: "case r0 of
          Ret None \<Rightarrow> r = Throw ''Failed to capture screenshot after multiple attempts''
        | Ret (Some b) \<Rightarrow> r = Ret b
        | Throw e \<Rightarrow> r = Throw e
        | Hang \<Rightarrow> r = Hang
        | Exit c \<Rightarrow> r = Exit c"
    by blast
  have short: ?thesis if "stopped k w r0 w'" "1 \<le> k" "k \<le> 3" for k
  proof -
    from that(1) out have
      "trace w' = trace w @ replicate k primaryShot \<and>
       ((\<exists>b. r = Ret b) \<or> (r = Throw ''Page closed during screenshot'' \<and> pageClosed w'))"
      by (auto simp: stopped_def)
    with that(2,3) show ?thesis by blast
  qed
  from earlier_attempt [OF op _ loop] consider
    (one) "stopped 1 w r0 w'"
  | (more) w2 where "\<not> pageClosed w2" "tick w2 = tick w + 2" "trace w2 = trace w @ [primaryShot]"
      "screenshotAttempts env 2 w2 = (r0, w')"
    by (auto simp: numeral_2_eq_2)
  then show ?thesis
  proof cases
    case one
    then show ?thesis by (rule short) simp_all
  next
    case more
    from earlier_attempt [OF more(1) _ more(4)] consider
      (two) "stopped 1 w2 r0 w'"
    | (three) w3 where "\<not> pageClosed w3" "tick w3 = tick w2 + 2"
        "trace w3 = trace w2 @ [primaryShot]" "screenshotAttempts env 3 w3 = (r0, w')"
      by auto
    then show ?thesis
    proof cases
      case two
      with more(3) have "stopped 2 w r0 w'"
        by (simp add: stopped_def numeral_2_eq_2)
      then show ?thesis by (rule short) simp_all
    next
      case three
      from last_attempt [OF three(1,4)] consider
        (last) "stopped 1 w3 r0 w'"
      | (fallback) "trace w' = trace w3 @ [primaryShot, fallbackShot]"
          "fellBack (env (tick w3) primaryShot) (env (tick w3 + 1) fallbackShot) r0"
        by auto
      then show ?thesis
      proof cases
        case last
        with more(3) three(3) have "stopped 3 w r0 w'"
          by (simp add: stopped_def numeral_3_eq_3)
        then show ?thesis by (rule short) simp_all
      next
        case fallback
        have k3: "tick w3 = tick w + 4" and k5: "tick w + 4 + 1 = tick w + 5"
          using more(2) three(2) by simp_all
        have tr: "trace w' = trace w @ [primaryShot, primaryShot, primaryShot, fallbackShot]"
          using fallback(1) more(3) three(3) by simp
        have fb: "fellBack (env (tick w + 4) primaryShot) (env (tick w + 5) fallbackShot) r0"
          using fallback(2) unfolding k3 k5 .
        define phi where "phi = env (tick w + 5) fallbackShot"
        define rho where "rho = env (tick w + 4) primaryShot"
        from fb out have
          "(settle phi = Resolves \<and> r = Ret (bytes phi)) \<or>
           ((\<exists>e. settle phi = Rejects e) \<and> r = Throw (primaryError rho)) \<or>
           (settle phi = Never \<and> r = Hang)"
          unfolding fellBack_def phi_def [symmetric] rho_def [symmetric] by auto
        with tr show ?thesis
          unfolding phi_def rho_def by blast
      qed
    qed
  qed
qed

lemma capture_after_three_failures:
  assumes op: "\<not> pageClosed w"
    and f1: "\<not> primaryWins (env (tick w) primaryShot)"
    and f2: "\<not> primaryWins (env (tick w + 2) primaryShot)"
    and f3: "\<not> primaryWins (env (tick w + 4) primaryShot)"
    and c0: "\<not> closes (env (tick w) primaryShot)"
    and c1: "\<not> closes (env (tick w + 1) (Timer 3000))"
    and c2: "\<not> closes (env (tick w + 2) primaryShot)"
    and c3: "\<not> closes (env (tick w + 3) (Timer 3000))"
    and c4: "\<not> closes (env (tick w + 4) primaryShot)"
    and run: "capture env w = (r, w')"
  shows "trace w' = trace w @ [primaryShot, primaryShot, primaryShot, fallbackShot] \<and>
     ((settle (env (tick w + 5) fallbackShot) = Resolves \<and>
          r = Ret (bytes (env (tick w + 5) fallbackShot))) \<or>
       ((\<exists>e. settle (env (tick w + 5) fallbackShot) = Rejects e) \<and>
          r = Throw (primaryError (env (tick w + 4) primaryShot))) \<or>
       (settle (env (tick w + 5) fallbackShot) = Never \<and> r = Hang))"
proof -
  from capture_cases [OF op run] consider
    (short) k where "1 \<le> k" "k \<le> 3" "trace w' = trace w @ replicate k primaryShot"
  | (full) "trace w' = trace w @ [primaryShot, primaryShot, primaryShot, fallbackShot] \<and>
     ((settle (env (tick w + 5) fallbackShot) = Resolves \<and>
          r = Ret (bytes (env (tick w + 5) fallbackShot))) \<or>
       ((\<exists>e. settle (env (tick w + 5) fallbackShot) = Rejects e) \<and>
          r = Throw (primaryError (env (tick w + 4) primaryShot))) \<or>
       (settle (env (tick w + 5) fallbackShot) = Never \<and> r = Hang))"
    by blast
  then show ?thesis
  proof cases
    case short
    from three_failures [OF op f1 f2 f3 c0 c1 c2 c3 c4] obtain w3 where
      o3: "\<not> pageClosed w3" and k3: "tick w3 = tick w + 4" and
      t3: "trace w3 = trace w @ [primaryShot, primaryShot]" and
      same: "screenshotAttempts env 1 w = screenshotAttempts env 3 w3"
      by blast
    from capture_outcome [OF run] have "snd (screenshotAttempts env 1 w) = w'"
      by auto
    with attempts_fallback(1) [where w = w3 and env = env] o3 f3 c4 k3 t3 same
    have "trace w' = trace w @ [primaryShot, primaryShot, primaryShot, fallbackShot]"
      by simp
    with short(3) have "replicate k primaryShot = [primaryShot, primaryShot, primaryShot, fallbackShot]"
      by simp
    then have "length (replicate k primaryShot) = 4"
      by simp
    with short(2) show ?thesis by simp
  next
    case full
    then show ?thesis .
  qed
qed

text \<open>
  Claim C6, as the code has it. The capture of a page that is open ends in one of two
  ways. Either it made one, two or three primary attempts and nothing else, and then it
  has a screenshot or has found the page closed after a failed attempt, which ends the
  stage with \<^verbatim>\<open>Page closed during screenshot\<close>. Or it made three primary attempts and
  then exactly one fallback call, at 800 by 600 and quality 50: when that resolves, its
  bytes are the result; when it rejects, the stage fails with the error of the third
  attempt; when it never settles, so does the stage. When the three primary attempts fail
  and none of the calls closes the page, it is the second way. And an image returned by
  \<^verbatim>\<open>priceScraper\<close> is what the capture returned, as \<^verbatim>\<open>image/jpeg\<close>.
\<close>

theorem C6_capture_retry_and_fallback:
  "(\<not> pageClosed w \<and> capture env w = (r, w') \<longrightarrow>
      ((\<exists>k. 1 \<le> k \<and> k \<le> 3 \<and> trace w' = trace w @ replicate k primaryShot) \<and>
         ((\<exists>b. r = Ret b) \<or> (r = Throw ''Page closed during screenshot'' \<and> pageClosed w'))) \<or>
      (trace w' = trace w @ [primaryShot, primaryShot, primaryShot, fallbackShot] \<and>
       ((settle (env (tick w + 5) fallbackShot) = Resolves \<and>
           r = Ret (bytes (env (tick w + 5) fallbackShot))) \<or>
        ((\<exists>e. settle (env (tick w + 5) fallbackShot) = Rejects e) \<and>
           r = Throw (primaryError (env (tick w + 4) primaryShot))) \<or>
        (settle (env (tick w + 5) fallbackShot) = Never \<and> r = Hang)))) \<and>
   (\<not> pageClosed w \<and> capture env w = (r, w') \<and>
    \<not> primaryWins (env (tick w) primaryShot) \<and>
    \<not> primaryWins (env (tick w + 2) primaryShot) \<and>
    \<not> primaryWins (env (tick w + 4) primaryShot) \<and>
    \<not> closes (env (tick w) primaryShot) \<and> \<not> closes (env (tick w + 1) (Timer 3000)) \<and>
    \<not> closes (env (tick w + 2) primaryShot) \<and> \<not> closes (env (tick w + 3) (Timer 3000)) \<and>
    \<not> closes (env (tick w + 4) primaryShot) \<longrightarrow>
      trace w' = trace w @ [primaryShot, primaryShot, primaryShot, fallbackShot] \<and>
      ((settle (env (tick w + 5) fallbackShot) = Resolves \<and>
           r = Ret (bytes (env (tick w + 5) fallbackShot))) \<or>
        ((\<exists>e. settle (env (tick w + 5) fallbackShot) = Rejects e) \<and>
           r = Throw (primaryError (env (tick w + 4) primaryShot))) \<or>
        (settle (env (tick w + 5) fallbackShot) = Never \<and> r = Hang))) \<and>
   (priceScraper env P ctx w0 = (Ret \<lparr>r_data = Image b, r_type = ty\<rparr>, w1) \<longrightarrow>
      ty = ''image/jpeg'' \<and> (\<exists>wc. \<not> pageClosed wc \<and> capture env wc = (Ret b, w1)))"
proof (intro conjI impI)
  assume "\<not> pageClosed w \<and> capture env w = (r, w')"
  then show
     "((\<exists>k. 1 \<le> k \<and> k \<le> 3 \<and> trace w' = trace w @ replicate k primaryShot) \<and>
         ((\<exists>b. r = Ret b) \<or> (r = Throw ''Page closed during screenshot'' \<and> pageClosed w'))) \<or>
      (trace w' = trace w @ [primaryShot, primaryShot, primaryShot, fallbackShot] \<and>
       ((settle (env (tick w + 5) fallbackShot) = Resolves \<and>
           r = Ret (bytes (env (tick w + 5) fallbackShot))) \<or>
        ((\<exists>e. settle (env (tick w + 5) fallbackShot) = Rejects e) \<and>
           r = Throw (primaryError (env (tick w + 4) primaryShot))) \<or>
        (settle (env (tick w + 5) fallbackShot) = Never \<and> r = Hang)))"
    using capture_cases by blast
next
  assume a: "\<not> pageClosed w \<and> capture env w = (r, w') \<and>
    \<not> primaryWins (env (tick w) primaryShot) \<and>
    \<not> primaryWins (env (tick w + 2) primaryShot) \<and>
    \<not> primaryWins (env (tick w + 4) primaryShot) \<and>
    \<not> closes (env (tick w) primaryShot) \<and> \<not> closes (env (tick w + 1) (Timer 3000)) \<and>
    \<not> closes (env (tick w + 2) primaryShot) \<and> \<not> closes (env (tick w + 3) (Timer 3000)) \<and>
    \<not> closes (env (tick w + 4) primaryShot)"
  have both: "trace w' = trace w @ [primaryShot, primaryShot, primaryShot, fallbackShot] \<and>
      ((settle (env (tick w + 5) fallbackShot) = Resolves \<and>
           r = Ret (bytes (env (tick w + 5) fallbackShot))) \<or>
        ((\<exists>e. settle (env (tick w + 5) fallbackShot) = Rejects e) \<and>
           r = Throw (primaryError (env (tick w + 4) primaryShot))) \<or>
        (settle (env (tick w + 5) fallbackShot) = Never \<and> r = Hang))"
    by (rule capture_after_three_failures [where env = env and w = w]) (use a in simp_all)
  from both show "trace w' = trace w @ [primaryShot, primaryShot, primaryShot, fallbackShot]" ..
  from both show "(settle (env (tick w + 5) fallbackShot) = Resolves \<and>
           r = Ret (bytes (env (tick w + 5) fallbackShot))) \<or>
        ((\<exists>e. settle (env (tick w + 5) fallbackShot) = Rejects e) \<and>
           r = Throw (primaryError (env (tick w + 4) primaryShot))) \<or>
        (settle (env (tick w + 5) fallbackShot) = Never \<and> r = Hang)" ..
next
  assume "priceScraper env P ctx w0 = (Ret \<lparr>r_data = Image b, r_type = ty\<rparr>, w1)"
  from priceScraper_image [OF this]
  show "ty = ''image/jpeg''" and "\<exists>wc. \<not> pageClosed wc \<and> capture env wc = (Ret b, w1)"
    by simp_all
qed

lemma configure_timeouts: "configure timeouts idle = (Ret (), configured)"
proof (rule configure_ok)
  show "\<not> pageClosed idle" by (simp add: idle_def)
  show "race timeouts SetUserAgent 10000 ''User agent timeout'' idle =
      (Ret (calm\<lparr>bytes := [255, 216, 255]\<rparr>), idle\<lparr>tick := 1, trace := [SetUserAgent]\<rparr>)"
    by (simp add: race_def observe_def Let_def timeouts_def primaryShot_def idle_def calm_def)
  show "\<not> pageClosed (idle\<lparr>tick := 1, trace := [SetUserAgent]\<rparr>)" by (simp add: idle_def)
  show "race timeouts (SetViewport 1366 768) 10000 ''Viewport timeout''
      (idle\<lparr>tick := 1, trace := [SetUserAgent]\<rparr>) = (Ret (calm\<lparr>bytes := [255, 216, 255]\<rparr>), configured)"
    by (simp add: race_def observe_def Let_def timeouts_def primaryShot_def idle_def calm_def configured_def)
qed

lemma login_timeouts: "login timeouts web plainJob target w = (Ret None, w)"
  by (simp add: login_def findLoginSite_def plainJob_def split: option.splits)

lemma navigate_timeouts:
  "navigate timeouts ''https://shop.acme.com/item/1'' 1 configured =
     (Ret (), configured\<lparr>tick := 3,
        trace := trace configured @ [gotoOptions ''https://shop.acme.com/item/1'']\<rparr>)"
  by (simp add: navigate.simps [of _ _ "Suc 0"] goto_def gotoOptions_def race_def observe_def Let_def
      timeouts_def primaryShot_def configured_def idle_def calm_def)

lemma scroll_timeouts:
  "scroll timeouts (configured\<lparr>tick := 3,
        trace := trace configured @ [gotoOptions ''https://shop.acme.com/item/1'']\<rparr>) =
     (Ret (), configured\<lparr>now := 1000, tick := 5,
        trace := trace configured @ [gotoOptions ''https://shop.acme.com/item/1'',
           Evaluate ''scroll down the page'']\<rparr>)"
  by (simp add: scroll_def tryCatch_def andThen_def await_def sleep_def observe_def Let_def
      timeouts_def primaryShot_def configured_def idle_def calm_def)

lemma dismissCookies_timeouts:
  \<open>dismissCookies timeouts (configured\<lparr>now := 1000, tick := 5,
        trace := trace configured @ [gotoOptions ''https://shop.acme.com/item/1'',
           Evaluate ''scroll down the page'']\<rparr>) =
     (Ret (), configured\<lparr>now := 1300, tick := 8,
        trace := trace configured @ [gotoOptions ''https://shop.acme.com/item/1'',
           Evaluate ''scroll down the page'', Query ''[aria-label="Accept cookies"]'', Click]\<rparr>)\<close>
  by (simp add: dismissCookies_def cookieSelectors_def tryCatch_def andThen_def await_def sleep_def
      observe_def Let_def timeouts_def primaryShot_def configured_def idle_def calm_def)

lemma memoryCleanup_timeouts:
  \<open>memoryCleanup timeouts (configured\<lparr>now := 1300, tick := 8,
        trace := trace configured @ [gotoOptions ''https://shop.acme.com/item/1'',
           Evaluate ''scroll down the page'', Query ''[aria-label="Accept cookies"]'', Click]\<rparr>) =
     (Ret (), beforeCapture)\<close>
  by (simp add: memoryCleanup_def tryCatch_def andThen_def await_def sleep_def
      observe_def Let_def timeouts_def primaryShot_def configured_def idle_def calm_def beforeCapture_def)

lemma capture_timeouts: "capture timeouts beforeCapture = (Ret [255, 216, 255], captured)"
  by (simp add: capture_def andThen_def screenshotAttempts.simps [of _ "Suc 0"]
      screenshotAttempts.simps [of _ "Suc (Suc 0)"] screenshotAttempts.simps [of _ "Suc (Suc (Suc 0))"]
      primaryAttempt_def fallbackAttempt_def race_def await_def sleep_def observe_def Let_def
      timeouts_def primaryShot_def fallbackShot_def beforeCapture_def captured_def idle_def calm_def)

lemma afterLogin_timeouts:
  "afterLogin timeouts ''https://shop.acme.com/item/1'' configured = (Ret [255, 216, 255], captured)"
proof -
  have open1: "\<not> pageClosed configured"
    and open2: "\<not> pageClosed (configured\<lparr>now := 1000, tick := 5,
        trace := trace configured @ [gotoOptions ''https://shop.acme.com/item/1'',
           Evaluate ''scroll down the page'']\<rparr>)"
    and open3: \<open>\<not> pageClosed (configured\<lparr>now := 1300, tick := 8,
        trace := trace configured @ [gotoOptions ''https://shop.acme.com/item/1'',
           Evaluate ''scroll down the page'', Query ''[aria-label="Accept cookies"]'', Click]\<rparr>)\<close>
    by (simp_all add: configured_def idle_def)
  show ?thesis
    unfolding afterLogin_def andThen_def
    by (simp only: open1 open2 open3 if_True if_False not_False_eq_True not_True_eq_False
        navigate_timeouts scroll_timeouts dismissCookies_timeouts memoryCleanup_timeouts
        capture_timeouts prod.case outcome.case)
qed

lemma priceScraper_timeouts:
  "priceScraper timeouts web plainJob idle =
     (Ret \<lparr>r_data = Image [255, 216, 255], r_type = ''image/jpeg''\<rparr>, captured)"
proof -
  have target: "c_url plainJob = Some ''https://shop.acme.com/item/1''"
    by (simp add: plainJob_def)
  have valid: "isValidUrl web ''https://shop.acme.com/item/1''"
    by (simp add: isValidUrl_def web_def)
  have "scrape timeouts web plainJob ''https://shop.acme.com/item/1'' idle =
      (Ret [255, 216, 255], captured)"
    by (simp add: scrape_def andThen_def configure_timeouts login_timeouts afterLogin_timeouts)
  with target valid show ?thesis
    by (simp add: priceScraper_def idle_def)
qed

text \<open>
  Claim C6 as the specification states it fails where a failed attempt finds the page
  closed: after one primary attempt the stage reports a failure, with no retry and no
  fallback.
\<close>

theorem C6_page_closed_counterexample:
  "capture crashing beforeCapture =
     (Throw ''Page closed during screenshot'',
      beforeCapture\<lparr>tick := 10, pageClosed := True,
                     trace := trace beforeCapture @ [primaryShot]\<rparr>) \<and>
   fallbackShot \<notin> set (trace beforeCapture @ [primaryShot])"
  by (simp add: capture_def andThen_def screenshotAttempts.simps [of _ "Suc 0"]
      primaryAttempt_def race_def observe_def Let_def
      crashing_def primaryShot_def fallbackShot_def beforeCapture_def gotoOptions_def idle_def calm_def)

text \<open>
  The run of \<^verbatim>\<open>plainJob\<close> in which each of the three primary screenshots times out and
  the fallback resolves: the job returns the bytes of the fallback as \<^verbatim>\<open>image/jpeg\<close>.
\<close>

theorem C6_capture_retry_and_fallback_witness:
  "\<not> pageClosed beforeCapture \<and>
   capture timeouts beforeCapture = (Ret [255, 216, 255], captured) \<and>
   \<not> primaryWins (timeouts (tick beforeCapture) primaryShot) \<and>
   \<not> primaryWins (timeouts (tick beforeCapture + 2) primaryShot) \<and>
   \<not> primaryWins (timeouts (tick beforeCapture + 4) primaryShot) \<and>
   settle (timeouts (tick beforeCapture + 5) fallbackShot) = Resolves \<and>
   bytes (timeouts (tick beforeCapture + 5) fallbackShot) = [255, 216, 255] \<and>
   trace captured = trace beforeCapture @ [primaryShot, primaryShot, primaryShot, fallbackShot] \<and>
   priceScraper timeouts web plainJob idle =
     (Ret \<lparr>r_data = Image [255, 216, 255], r_type = ''image/jpeg''\<rparr>, captured) \<and>
   (\<exists>wc. \<not> pageClosed wc \<and> capture timeouts wc = (Ret [255, 216, 255], captured))"
proof -
  have op: "\<not> pageClosed beforeCapture"
    by (simp add: beforeCapture_def idle_def)
  have p: "\<not> primaryWins (timeouts n primaryShot)" "\<not> closes (timeouts n a)" for n a
    by (simp_all add: timeouts_def primaryWins_def calm_def)
  have f: "settle (timeouts n fallbackShot) = Resolves"
      "bytes (timeouts n fallbackShot) = [255, 216, 255]" for n
    by (simp_all add: timeouts_def primaryShot_def fallbackShot_def calm_def)
  from C6_capture_retry_and_fallback [where w = beforeCapture and env = timeouts
      and r = "Ret [255, 216, 255]" and w' = captured and P = web and ctx = plainJob
      and ?w0.0 = idle and b = "[255, 216, 255]" and ty = "''image/jpeg''" and ?w1.0 = captured]
    op p f capture_timeouts priceScraper_timeouts
  show ?thesis
    by simp
qed

section \<open>Results about the queue\<close>

lemma acquirePage_frozen:
  "acquirePage frozen 1 idle = (Ret True, idle\<lparr>tick := 1, trace := [PoolAcquire]\<rparr>)"
  by (simp add: acquirePage.simps [of _ "Suc 0"] acquire_def race_def observe_def Let_def
      frozen_def idle_def calm_def)

lemma clearStorage_frozen:
  "clearStorage frozen (idle\<lparr>tick := 1, trace := [PoolAcquire]\<rparr>) =
     (Ret (), idle\<lparr>tick := 2, trace := [PoolAcquire]\<rparr>)"
  by (simp add: clearStorage_def Let_def frozen_def idle_def calm_def)

lemma configure_frozen:
  "configure frozen (idle\<lparr>tick := 2, trace := [PoolAcquire]\<rparr>) =
     (Ret (), idle\<lparr>tick := 4, trace := [PoolAcquire, SetUserAgent, SetViewport 1366 768]\<rparr>)"
proof (rule configure_ok)
  show "\<not> pageClosed (idle\<lparr>tick := 2, trace := [PoolAcquire]\<rparr>)" by (simp add: idle_def)
  show "race frozen SetUserAgent 10000 ''User agent timeout'' (idle\<lparr>tick := 2, trace := [PoolAcquire]\<rparr>) =
      (Ret calm, idle\<lparr>tick := 3, trace := [PoolAcquire, SetUserAgent]\<rparr>)"
    by (simp add: race_def observe_def Let_def frozen_def idle_def calm_def)
  show "\<not> pageClosed (idle\<lparr>tick := 3, trace := [PoolAcquire, SetUserAgent]\<rparr>)" by (simp add: idle_def)
  show "race frozen (SetViewport 1366 768) 10000 ''Viewport timeout''
      (idle\<lparr>tick := 3, trace := [PoolAcquire, SetUserAgent]\<rparr>) =
      (Ret calm, idle\<lparr>tick := 4, trace := [PoolAcquire, SetUserAgent, SetViewport 1366 768]\<rparr>)"
    by (simp add: race_def observe_def Let_def frozen_def idle_def calm_def)
qed

lemma login_plainJob: "login env web plainJob target w = (Ret None, w)"
  by (simp add: login_def findLoginSite_def plainJob_def split: option.splits)

lemma navigate_frozen:
  "navigate frozen ''https://shop.acme.com/item/1'' 1
       (idle\<lparr>tick := 4, trace := [PoolAcquire, SetUserAgent, SetViewport 1366 768]\<rparr>) =
     (Ret (), idle\<lparr>tick := 5,
        trace := [PoolAcquire, SetUserAgent, SetViewport 1366 768,
                  gotoOptions ''https://shop.acme.com/item/1'']\<rparr>)"
  by (simp add: navigate.simps [of _ _ "Suc 0"] goto_def gotoOptions_def race_def observe_def Let_def
      frozen_def idle_def calm_def)

lemma scroll_frozen:
  "scroll frozen (idle\<lparr>tick := 5,
        trace := [PoolAcquire, SetUserAgent, SetViewport 1366 768,
                  gotoOptions ''https://shop.acme.com/item/1'']\<rparr>) = (Hang, stuck)"
  by (simp add: scroll_def tryCatch_def andThen_def await_def observe_def Let_def
      frozen_def stuck_def idle_def calm_def)

lemma afterLogin_frozen:
  "afterLogin frozen ''https://shop.acme.com/item/1''
       (idle\<lparr>tick := 4, trace := [PoolAcquire, SetUserAgent, SetViewport 1366 768]\<rparr>) = (Hang, stuck)"
proof -
  have open1: "\<not> pageClosed (idle\<lparr>tick := 4, trace := [PoolAcquire, SetUserAgent, SetViewport 1366 768]\<rparr>)"
    by (simp add: idle_def)
  show ?thesis
    unfolding afterLogin_def andThen_def
    by (simp only: open1 if_False navigate_frozen scroll_frozen prod.case outcome.case)
qed

lemma priceScraper_frozen:
  "priceScraper frozen web plainJob (idle\<lparr>tick := 2, trace := [PoolAcquire]\<rparr>) = (Hang, stuck)"
proof -
  have target: "c_url plainJob = Some ''https://shop.acme.com/item/1''"
    by (simp add: plainJob_def)
  have valid: "isValidUrl web ''https://shop.acme.com/item/1''"
    by (simp add: isValidUrl_def web_def)
  have "scrape frozen web plainJob ''https://shop.acme.com/item/1''
      (idle\<lparr>tick := 2, trace := [PoolAcquire]\<rparr>) = (Hang, stuck)"
    unfolding scrape_def andThen_def
    by (simp only: configure_frozen login_plainJob afterLogin_frozen prod.case outcome.case)
  with target valid show ?thesis
    by (simp add: priceScraper_def idle_def)
qed

lemma runScrapeJob_frozen: "runScrapeJob frozen web plainJob idle = (Hang, stuck)"
proof -
  have ok: "\<not> urlRejected web (c_url plainJob)"
    by (simp add: urlRejected_def isValidUrl_def web_def plainJob_def)
  have up: "browserUp idle"
    by (simp add: browserUp_def idle_def)
  have "withPage frozen web plainJob (idle\<lparr>tick := 1, trace := [PoolAcquire]\<rparr>) = (Hang, stuck)"
    unfolding withPage_def andThen_def
    by (simp only: clearStorage_frozen priceScraper_frozen prod.case outcome.case)
  with ok up show ?thesis
    unfolding runScrapeJob_def andThen_def
    by (simp only: acquirePage_frozen if_True if_False not_True_eq_False prod.case outcome.case)
qed

lemma runScrapeJob_invalid:
  "runScrapeJob quiet web (plainJob\<lparr>c_url := Some ''not a url''\<rparr>) w =
     (Ret (invalidUrl (Some ''not a url'')), w)"
  by (simp add: runScrapeJob_def urlRejected_def isValidUrl_def web_def plainJob_def)

lemma admitted_frees:
  "admitted (Some ms) job w = (ans, Free w') \<Longrightarrow> now w' \<le> now w + ms"
  by (auto simp: admitted_def settled_def exceeds_def
      split: prod.splits outcome.splits if_splits)

lemma admitted_never_stuck: "admitted (Some ms) job w \<noteq> (ans, Stuck)"
  by (auto simp: admitted_def settled_def exceeds_def
      split: prod.splits outcome.splits if_splits)

lemma admitted_in_time:
  "admitted (Some ms) job w = (ans, sl) \<Longrightarrow>
     ans \<noteq> Waiting \<and> (\<forall>a t. ans = Answer a t \<longrightarrow> t \<le> now w + ms) \<and>
     (\<forall>e t. ans = Failed e t \<longrightarrow> t \<le> now w + ms) \<and>
     (\<forall>t. ans = JobTimeout t \<longrightarrow> t = now w + ms)"
  by (auto simp: admitted_def settled_def exceeds_def
      split: prod.splits outcome.splits if_splits)

lemma serial_length: "length (serial limit jobs w) = length jobs"
proof (induction jobs arbitrary: w)
  case Nil
  then show ?case by simp
next
  case (Cons job rest)
  then show ?case
    by (cases "admitted limit job w") (auto split: slot.splits)
qed

lemma serial_in_time:
  assumes "k < length jobs"
  shows "serial (Some ms) jobs w ! k \<noteq> Waiting \<and>
     (\<forall>a t. serial (Some ms) jobs w ! k = Answer a t \<longrightarrow> t \<le> now w + (k + 1) * ms) \<and>
     (\<forall>e t. serial (Some ms) jobs w ! k = Failed e t \<longrightarrow> t \<le> now w + (k + 1) * ms) \<and>
     (\<forall>t. serial (Some ms) jobs w ! k = JobTimeout t \<longrightarrow> t \<le> now w + (k + 1) * ms)"
  using assms
proof (induction jobs arbitrary: w k)
  case Nil
  then show ?case by simp
next
  case (Cons job rest)
  obtain ans sl where run: "admitted (Some ms) job w = (ans, sl)"
    by (cases "admitted (Some ms) job w")
  show ?case
  proof (cases k)
    case 0
    with run admitted_in_time [OF run] show ?thesis
      by (cases sl) auto
  next
    case (Suc j)
    with Cons.prems have j: "j < length rest"
      by simp
    show ?thesis
    proof (cases sl)
      case (Free w')
      from admitted_frees [OF run [unfolded Free]] have "now w' \<le> now w + ms" .
      moreover have "now w + ms + (j + 1) * ms = now w + (Suc j + 1) * ms"
        by simp
      ultimately show ?thesis
        using Cons.IH [OF j, of w'] run Free Suc
        by (auto simp del: mult_Suc)
    next
      case Stuck
      with run admitted_never_stuck show ?thesis
        by blast
    next
      case (Gone c)
      with run Suc j show ?thesis
        by simp
    qed
  qed
qed

lemma serial_stuck:
  "fst (job w) = Hang \<Longrightarrow> serial None (job # rest) w = replicate (Suc (length rest)) Waiting"
  by (cases "job w") (simp add: admitted_def settled_def map_replicate_const)

text \<open>
  Claim C7 as the specification states it fails for the queue of \<^verbatim>\<open>server.mjs\<close>, which
  is constructed without a timeout: the caller of a job that stops in a script of a frozen
  page waits for ever, and so does the caller queued behind it.
\<close>

theorem C7_no_timeout_counterexample:
  "q_timeout serverQueue = None \<and>
   queueAdd serverQueue [runScrapeJob frozen web plainJob] idle = Some [Waiting] \<and>
   queueAdd serverQueue
     [runScrapeJob frozen web plainJob,
      runScrapeJob quiet web (plainJob\<lparr>c_url := Some ''not a url''\<rparr>)] idle =
     Some [Waiting, Waiting]"
  by (simp add: serverQueue_def queueAdd_def admitted_def settled_def runScrapeJob_frozen)

text \<open>
  Claim C7, as the code has it. With the options of \<^verbatim>\<open>server-n8n-optimized.mjs\<close> (one
  slot, a timeout of 45000 ms) no caller waits for ever: the caller with \<^verbatim>\<open>k\<close> jobs
  queued ahead of its own gets a result, an error or the timeout no later than
  \<^verbatim>\<open>(k + 1) * 45000\<close> ms after the submission, unless the process ends. A job that never
  returns or runs for more than 45000 ms fails with the timeout at exactly 45000 ms after
  its start; a job that returns or throws within 45000 ms gives its caller that result.
  With the options of \<^verbatim>\<open>server.mjs\<close> (one slot, no timeout) the caller waits for ever
  exactly when the job never returns, and then so does every caller behind it; the
  result or error of a job that returns reaches the caller whenever that is.
\<close>

theorem C7_queue_timeout:
  "(\<exists>answers. queueAdd n8nQueue jobs w = Some answers \<and> length answers = length jobs \<and>
      (\<forall>k<length jobs. answers ! k \<noteq> Waiting \<and>
         (\<forall>a t. answers ! k = Answer a t \<longrightarrow> t \<le> now w + (k + 1) * 45000) \<and>
         (\<forall>e t. answers ! k = Failed e t \<longrightarrow> t \<le> now w + (k + 1) * 45000) \<and>
         (\<forall>t. answers ! k = JobTimeout t \<longrightarrow> t \<le> now w + (k + 1) * 45000))) \<and>
   (fst (job w) = Hang \<or> 45000 < now (snd (job w)) - now w \<longrightarrow>
      queueAdd n8nQueue [job] w = Some [JobTimeout (now w + 45000)]) \<and>
   (\<forall>a. fst (job w) = Ret a \<and> now (snd (job w)) - now w \<le> 45000 \<longrightarrow>
      queueAdd n8nQueue [job] w = Some [Answer a (now (snd (job w)))]) \<and>
   (\<forall>e. fst (job w) = Throw e \<and> now (snd (job w)) - now w \<le> 45000 \<longrightarrow>
      queueAdd n8nQueue [job] w = Some [Failed e (now (snd (job w)))]) \<and>
   (queueAdd serverQueue [job] w = Some [Waiting] \<longleftrightarrow> fst (job w) = Hang) \<and>
   (\<forall>a. fst (job w) = Ret a \<longrightarrow>
      queueAdd serverQueue [job] w = Some [Answer a (now (snd (job w)))]) \<and>
   (\<forall>e. fst (job w) = Throw e \<longrightarrow>
      queueAdd serverQueue [job] w = Some [Failed e (now (snd (job w)))]) \<and>
   (fst (job w) = Hang \<longrightarrow>
      queueAdd serverQueue (job # rest) w = Some (replicate (Suc (length rest)) Waiting))"
proof -
  obtain r w' where run: "job w = (r, w')"
    by (cases "job w")
  have queued: "\<exists>answers. queueAdd n8nQueue jobs w = Some answers \<and>
      length answers = length jobs \<and>
      (\<forall>k<length jobs. answers ! k \<noteq> Waiting \<and>
         (\<forall>a t. answers ! k = Answer a t \<longrightarrow> t \<le> now w + (k + 1) * 45000) \<and>
         (\<forall>e t. answers ! k = Failed e t \<longrightarrow> t \<le> now w + (k + 1) * 45000) \<and>
         (\<forall>t. answers ! k = JobTimeout t \<longrightarrow> t \<le> now w + (k + 1) * 45000))"
    using serial_in_time [of _ jobs 45000 w]
    by (simp add: queueAdd_def n8nQueue_def serial_length)
  have timeout: "queueAdd n8nQueue [job] w = Some [JobTimeout (now w + 45000)]"
    if "fst (job w) = Hang \<or> 45000 < now (snd (job w)) - now w"
    using that
    by (cases r) (auto simp: run queueAdd_def n8nQueue_def admitted_def exceeds_def settled_def)
  have inTime: "queueAdd n8nQueue [job] w = Some [Answer a (now (snd (job w)))]"
    if "fst (job w) = Ret a \<and> now (snd (job w)) - now w \<le> 45000" for a
    using that
    by (auto simp: run queueAdd_def n8nQueue_def admitted_def exceeds_def settled_def)
  have errInTime: "queueAdd n8nQueue [job] w = Some [Failed e (now (snd (job w)))]"
    if "fst (job w) = Throw e \<and> now (snd (job w)) - now w \<le> 45000" for e
    using that
    by (auto simp: run queueAdd_def n8nQueue_def admitted_def exceeds_def settled_def)
  have waiting: "queueAdd serverQueue [job] w = Some [Waiting] \<longleftrightarrow> fst (job w) = Hang"
    by (cases r) (simp_all add: run queueAdd_def serverQueue_def admitted_def settled_def)
  have result: "queueAdd serverQueue [job] w = Some [Answer a (now (snd (job w)))]"
    if "fst (job w) = Ret a" for a
    using that by (simp add: run queueAdd_def serverQueue_def admitted_def settled_def)
  have error: "queueAdd serverQueue [job] w = Some [Failed e (now (snd (job w)))]"
    if "fst (job w) = Throw e" for e
    using that by (simp add: run queueAdd_def serverQueue_def admitted_def settled_def)
  have behind: "queueAdd serverQueue (job # rest) w = Some (replicate (Suc (length rest)) Waiting)"
    if "fst (job w) = Hang"
    using that serial_stuck [where job = job and w = w and rest = rest]
    by (simp add: queueAdd_def serverQueue_def)
  from queued timeout inTime errInTime waiting result error behind show ?thesis
    by (intro conjI allI impI) assumption+
qed

theorem C7_queue_timeout_witness:
  "fst (runScrapeJob frozen web plainJob idle) = Hang \<and>
   queueAdd n8nQueue [runScrapeJob frozen web plainJob] idle = Some [JobTimeout 45000] \<and>
   queueAdd n8nQueue
     [runScrapeJob frozen web plainJob,
      runScrapeJob quiet web (plainJob\<lparr>c_url := Some ''not a url''\<rparr>)] idle =
     Some [JobTimeout 45000, Answer (invalidUrl (Some ''not a url'')) 45000] \<and>
   fst (runScrapeJob quiet web (plainJob\<lparr>c_url := Some ''not a url''\<rparr>) idle) =
     Ret (invalidUrl (Some ''not a url'')) \<and>
   queueAdd serverQueue [runScrapeJob quiet web (plainJob\<lparr>c_url := Some ''not a url''\<rparr>)] idle =
     Some [Answer (invalidUrl (Some ''not a url'')) 0]"
proof -
  have start: "now idle = 0"
    by (simp add: idle_def)
  have hang: "fst (runScrapeJob frozen web plainJob idle) = Hang"
    by (simp add: runScrapeJob_frozen)
  have bad: "fst (runScrapeJob quiet web (plainJob\<lparr>c_url := Some ''not a url''\<rparr>) idle) =
     Ret (invalidUrl (Some ''not a url''))"
    by (simp add: runScrapeJob_invalid)
  have two: "queueAdd n8nQueue
     [runScrapeJob frozen web plainJob,
      runScrapeJob quiet web (plainJob\<lparr>c_url := Some ''not a url''\<rparr>)] idle =
     Some [JobTimeout 45000, Answer (invalidUrl (Some ''not a url'')) 45000]"
    by (simp add: queueAdd_def n8nQueue_def admitted_def exceeds_def settled_def
        runScrapeJob_frozen runScrapeJob_invalid start)
  note frozenJob = C7_queue_timeout [where job = "runScrapeJob frozen web plainJob" and w = idle]
  note badJob = C7_queue_timeout
    [where job = "runScrapeJob quiet web (plainJob\<lparr>c_url := Some ''not a url''\<rparr>)" and w = idle]
  from frozenJob [THEN conjunct2, THEN conjunct1] hang
  have one: "queueAdd n8nQueue [runScrapeJob frozen web plainJob] idle = Some [JobTimeout 45000]"
    by (simp add: start)
  from badJob [THEN conjunct2, THEN conjunct2, THEN conjunct2, THEN conjunct2,
      THEN conjunct2, THEN conjunct1] bad
  have late: "queueAdd serverQueue
      [runScrapeJob quiet web (plainJob\<lparr>c_url := Some ''not a url''\<rparr>)] idle =
     Some [Answer (invalidUrl (Some ''not a url'')) 0]"
    by (simp add: runScrapeJob_invalid start)
  from hang one two bad late show ?thesis
    by simp
qed

end
